theory Spec2Isabelle
  imports Complex_Main "HOL-Library.Word" "HOL-Library.Sublist"
begin

unbundle bit_operations_syntax

section \<open>Python values\<close>

text \<open>
  A Python \<open>str\<close> is a sequence of Unicode code points and \<open>bytes\<close> a sequence of
  octets. Lengths, indices and character classes of the source count code points, so a
  string is modelled as a list of code points (natural numbers below \<open>0x110000\<close>), not
  as a list of 8-bit characters. \<open>asc\<close> writes an ASCII literal of the source as such a
  list.
\<close>

type_synonym codepoint = nat
type_synonym str = "codepoint list"
type_synonym byte = "8 word"
type_synonym bytes = "byte list"

definition asc :: "string \<Rightarrow> str" where
  "asc cs = map of_char cs"

text \<open>
  The character tables of the interpreter that the program consults. Whitespace, line
  boundaries and the case folding of the letters of \<open>@startuml\<close> are finite and written
  out below. Two tables are too large to write out and belong to the interpreter, not to
  the repository: which code points above U+00FF are alphanumeric (for the regular
  expression class \<open>\w\<close>), and the upper-case mapping of code points above U+007F (for
  \<open>str.upper\<close>). They are parameters of the model.
\<close>

record unicode_db =
  isalnum_above_latin1 :: "codepoint \<Rightarrow> bool"
  upper_above_ascii :: "codepoint \<Rightarrow> str"

text \<open>\<open>str.isspace\<close> for one character; the class \<open>\s\<close> of \<open>re\<close> on \<open>str\<close> patterns.\<close>

definition isspace :: "codepoint \<Rightarrow> bool" where
  "isspace c \<longleftrightarrow>
     (9 \<le> c \<and> c \<le> 13) \<or> (28 \<le> c \<and> c \<le> 32) \<or> c = 0x85 \<or> c = 0xA0 \<or> c = 0x1680 \<or>
     (0x2000 \<le> c \<and> c \<le> 0x200A) \<or> c = 0x2028 \<or> c = 0x2029 \<or> c = 0x202F \<or>
     c = 0x205F \<or> c = 0x3000"

text \<open>The line boundaries of \<open>str.splitlines\<close>.\<close>

definition is_linebreak :: "codepoint \<Rightarrow> bool" where
  "is_linebreak c \<longleftrightarrow>
     c = 10 \<or> c = 11 \<or> c = 12 \<or> c = 13 \<or> c = 28 \<or> c = 29 \<or> c = 30 \<or> c = 0x85 \<or>
     c = 0x2028 \<or> c = 0x2029"

text \<open>
  \<open>str.splitlines()\<close>: the text is cut at every line boundary, \<open>\r\n\<close> counting as one;
  the boundaries are dropped and no empty last line is produced. The first argument is
  the line read so far.
\<close>

fun splitlines_from :: "str \<Rightarrow> str \<Rightarrow> str list" where
  "splitlines_from cur [] = (if cur = [] then [] else [cur])"
| "splitlines_from cur [c] =
     (if is_linebreak c then [cur] else [cur @ [c]])"
| "splitlines_from cur (c # d # cs) =
     (if c = 13 \<and> d = 10 then cur # splitlines_from [] cs
      else if is_linebreak c then cur # splitlines_from [] (d # cs)
      else splitlines_from (cur @ [c]) (d # cs))"

definition splitlines :: "str \<Rightarrow> str list" where
  "splitlines s = splitlines_from [] s"

text \<open>\<open>str.strip()\<close>: whitespace removed at both ends.\<close>

definition strip :: "str \<Rightarrow> str" where
  "strip s = rev (dropWhile isspace (rev (dropWhile isspace s)))"

text \<open>\<open>sub in s\<close> on strings: \<open>sub\<close> occurs in \<open>s\<close> as a contiguous substring.\<close>

fun contains :: "str \<Rightarrow> str \<Rightarrow> bool" where
  "contains sub [] = (sub = [])"
| "contains sub (c # cs) = (prefix sub (c # cs) \<or> contains sub cs)"

text \<open>\<open>sep.join(parts)\<close>.\<close>

fun join :: "str \<Rightarrow> str list \<Rightarrow> str" where
  "join sep [] = []"
| "join sep [p] = p"
| "join sep (p # q # ps) = p @ sep @ join sep (q # ps)"

text \<open>\<open>str(n)\<close> for a non-negative integer, and the format \<open>{n:02}\<close>: at least two digits,
  padded with zeros on the left.\<close>

fun decimal :: "nat \<Rightarrow> str" where
  "decimal n = (if n < 10 then [48 + n] else decimal (n div 10) @ [48 + n mod 10])"

declare decimal.simps [simp del]

definition fmt02 :: "nat \<Rightarrow> str" where
  "fmt02 n = replicate (2 - length (decimal n)) 48 @ decimal n"

text \<open>\<open>str.upper()\<close>: an ASCII letter goes to its upper case and every other ASCII character
  stays; a character above U+007F goes to the string its upper-case mapping gives.\<close>

definition ascii_upper :: "codepoint \<Rightarrow> codepoint" where
  "ascii_upper c = (if 97 \<le> c \<and> c \<le> 122 then c - 32 else c)"

definition upper :: "unicode_db \<Rightarrow> str \<Rightarrow> str" where
  "upper U s = concat (map (\<lambda>c. if c < 128 then [ascii_upper c] else upper_above_ascii U c) s)"

text \<open>\<open>s.rstrip('/')\<close>.\<close>

definition rstrip_slash :: "str \<Rightarrow> str" where
  "rstrip_slash s = rev (dropWhile (\<lambda>c. c = 47) (rev s))"

text \<open>\<open>os.path.join(a, b)\<close> on POSIX: an absolute \<open>b\<close> replaces \<open>a\<close>; otherwise the two
  are joined by one slash unless \<open>a\<close> is empty or ends in one.\<close>

definition path_join :: "str \<Rightarrow> str \<Rightarrow> str" where
  "path_join a b =
     (if b \<noteq> [] \<and> hd b = 47 then b
      else if a = [] \<or> last a = 47 then a @ b
      else a @ [47] @ b)"

section \<open>Source parsing\<close>

text \<open>
  \<open>_START_RE = re.compile(r"@startuml(?:\s+([^\s]+))?", re.IGNORECASE)\<close>, used with
  \<open>match\<close>, which anchors at the start of the string. \<open>ieq p c\<close>: the character \<open>c\<close>
  matches the literal \<open>p\<close> of the pattern under \<open>IGNORECASE\<close>; besides the two ASCII
  cases, \<open>s\<close> also matches U+017F (LATIN SMALL LETTER LONG S). The result is \<open>NoMatch\<close>
  for Python's \<open>None\<close> and \<open>Match g\<close> for a match object whose \<open>group(1)\<close> is \<open>g\<close>.
\<close>

datatype re_match = NoMatch | Match "str option"

definition ieq :: "codepoint \<Rightarrow> codepoint \<Rightarrow> bool" where
  "ieq p c \<longleftrightarrow> c = p \<or> (97 \<le> p \<and> p \<le> 122 \<and> c + 32 = p) \<or> (p = 115 \<and> c = 0x17F)"

fun imatch_prefix :: "str \<Rightarrow> str \<Rightarrow> bool" where
  "imatch_prefix [] s = True"
| "imatch_prefix (p # ps) [] = False"
| "imatch_prefix (p # ps) (c # cs) = (ieq p c \<and> imatch_prefix ps cs)"

definition START_RE_match :: "str \<Rightarrow> re_match" where
  "START_RE_match s =
     (if imatch_prefix (asc ''@startuml'') s then
        (let rest = drop 9 s;
             ws = takeWhile isspace rest;
             tok = takeWhile (\<lambda>c. \<not> isspace c) (dropWhile isspace rest)
         in Match (if ws \<noteq> [] \<and> tok \<noteq> [] then Some tok else None))
      else NoMatch)"

definition END_DIRECTIVE :: str where
  "END_DIRECTIVE = asc ''@enduml''"

text \<open>
  The class \<open>\w\<close> of \<open>re\<close> on a \<open>str\<close> pattern: the underscore and every alphanumeric
  character of Unicode. Up to U+00FF the table is written out.
\<close>

definition is_word :: "unicode_db \<Rightarrow> codepoint \<Rightarrow> bool" where
  "is_word U c \<longleftrightarrow>
     (if c < 128 then
        (48 \<le> c \<and> c \<le> 57) \<or> (65 \<le> c \<and> c \<le> 90) \<or> c = 95 \<or> (97 \<le> c \<and> c \<le> 122)
      else if c < 256 then
        c = 0xAA \<or> c = 0xB2 \<or> c = 0xB3 \<or> c = 0xB5 \<or> c = 0xB9 \<or> c = 0xBA \<or>
        (0xBC \<le> c \<and> c \<le> 0xBE) \<or> (0xC0 \<le> c \<and> c \<le> 0xD6) \<or> (0xD8 \<le> c \<and> c \<le> 0xF6) \<or>
        0xF8 \<le> c
      else isalnum_above_latin1 U c)"

text \<open>\<open>re.sub(r"[^\w\-_.]", "_", raw)\<close>: every character that is not a word character,
  a hyphen, an underscore or a dot is replaced by an underscore.\<close>

definition sanitize :: "unicode_db \<Rightarrow> str \<Rightarrow> str" where
  "sanitize U raw = map (\<lambda>c. if is_word U c \<or> c = 45 \<or> c = 95 \<or> c = 46 then c else 95) raw"

text \<open>
  The inner loop of \<open>iter_diagrams\<close> and the \<open>if\<close> that follows it, on the lines after
  the start directive (the suffix \<open>lines[i:]\<close>): the lines appended to \<open>buf\<close>, up to and
  including the first line that contains \<open>@enduml\<close>, and the lines left after
  \<open>i += 1\<close>.
\<close>

fun collect :: "str list \<Rightarrow> str list \<times> str list" where
  "collect [] = ([], [])"
| "collect (l # ls) =
     (if contains END_DIRECTIVE l then ([l], ls)
      else (case collect ls of (buf, rest) \<Rightarrow> (l # buf, rest)))"

lemma length_snd_collect: "length (snd (collect ls)) \<le> length ls"
  by (induction ls) (auto split: prod.splits)

text \<open>
  The outer loop of \<open>iter_diagrams\<close> on the suffix \<open>lines[i:]\<close>, with the counter
  \<open>count\<close>. Each unit is yielded as its name and \<open>buf\<close>.
\<close>

definition raw_name :: "nat \<Rightarrow> str option \<Rightarrow> str" where
  "raw_name count g = (case g of Some a \<Rightarrow> a | None \<Rightarrow> asc ''diagram_'' @ fmt02 count)"

function iter_units :: "unicode_db \<Rightarrow> nat \<Rightarrow> str list \<Rightarrow> (str \<times> str list) list" where
  "iter_units U count [] = []"
| "iter_units U count (l # ls) =
     (case START_RE_match (strip l) of
        NoMatch \<Rightarrow> iter_units U count ls
      | Match g \<Rightarrow>
          (sanitize U (raw_name count g), l # fst (collect ls))
            # iter_units U (count + 1) (snd (collect ls)))"
  by pat_completeness auto
termination
  by (relation "measure (\<lambda>(U, count, ls). length ls)")
     (auto simp: length_snd_collect less_Suc_eq_le)

text \<open>\<open>iter_diagrams\<close>: the units of a document, each as \<open>(name, "\n".join(buf) + "\n")\<close>.\<close>

definition iter_diagrams :: "unicode_db \<Rightarrow> str \<Rightarrow> (str \<times> str) list" where
  "iter_diagrams U doc =
     map (\<lambda>(name, buf). (name, join [10] buf @ [10])) (iter_units U 1 (splitlines doc))"

section \<open>The encoder\<close>

text \<open>
  The exceptions that reach the program. \<open>RuntimeError\<close> carries its message.
  \<open>RequestException\<close> stands for every exception of the \<open>requests\<close> library (connection
  errors and timeouts are subclasses of it) and \<open>OSError\<close> for a failure to open or write
  a file; both carry the message the library gives them. \<open>UnicodeEncodeError c i j\<close> is
  raised by \<open>str.encode\<close> on a text with lone surrogates at the positions \<open>i\<close> to
  \<open>j - 1\<close>, the first of them \<open>c\<close>.
\<close>

datatype exn =
    RuntimeError str
  | RequestException str
  | UnicodeEncodeError codepoint nat nat
  | OSError str

text \<open>\<open>text.encode()\<close>: UTF-8; a surrogate code point cannot be encoded.\<close>

definition is_surrogate :: "codepoint \<Rightarrow> bool" where
  "is_surrogate c \<longleftrightarrow> 0xD800 \<le> c \<and> c \<le> 0xDFFF"

definition utf8_char :: "codepoint \<Rightarrow> bytes" where
  "utf8_char c =
     (if c < 0x80 then [of_nat c]
      else if c < 0x800 then [of_nat (0xC0 + c div 64), of_nat (0x80 + c mod 64)]
      else if c < 0x10000 then
        [of_nat (0xE0 + c div 4096), of_nat (0x80 + c div 64 mod 64), of_nat (0x80 + c mod 64)]
      else
        [of_nat (0xF0 + c div 262144), of_nat (0x80 + c div 4096 mod 64),
         of_nat (0x80 + c div 64 mod 64), of_nat (0x80 + c mod 64)])"

fun utf8_from :: "nat \<Rightarrow> str \<Rightarrow> exn + bytes" where
  "utf8_from i [] = Inr []"
| "utf8_from i (c # cs) =
     (if is_surrogate c then
        Inl (UnicodeEncodeError c i (i + 1 + length (takeWhile is_surrogate cs)))
      else (case utf8_from (i + 1) cs of
              Inl e \<Rightarrow> Inl e
            | Inr bs \<Rightarrow> Inr (utf8_char c @ bs)))"

definition utf8_encode :: "str \<Rightarrow> exn + bytes" where
  "utf8_encode s = utf8_from 0 s"

text \<open>
  \<^verbatim>\<open>_ALPHABET = "0123456789ABCDEFGHIJKLMNOPQRSTUVWXYZabcdefghijklmnopqrstuvwxyz-_"\<close>
  and \<^verbatim>\<open>_enc6(b) = _ALPHABET[b & 0x3F]\<close> on Python's unbounded integers.
\<close>

definition ALPHABET :: str where
  "ALPHABET = asc ''0123456789ABCDEFGHIJKLMNOPQRSTUVWXYZabcdefghijklmnopqrstuvwxyz-_''"

definition enc6 :: "int \<Rightarrow> codepoint" where
  "enc6 b = ALPHABET ! nat (b AND 0x3F)"

text \<open>
  \<open>_encode_bytes\<close>: the loop \<open>for i in range(0, len(data), 3)\<close> on the suffix
  \<open>data[i:]\<close>; \<open>b2\<close> and \<open>b3\<close> are 0 past the end of the data.
\<close>

fun encode_bytes :: "bytes \<Rightarrow> str" where
  "encode_bytes [] = []"
| "encode_bytes (x1 # xs) =
     (let b1 = uint x1;
          b2 = (case xs of [] \<Rightarrow> 0 | x2 # ys \<Rightarrow> uint x2);
          b3 = (case drop 1 xs of [] \<Rightarrow> 0 | x3 # ys \<Rightarrow> uint x3)
      in [enc6 (drop_bit 2 b1),
          enc6 (push_bit 4 (b1 AND 0x3) OR drop_bit 4 b2),
          enc6 (push_bit 2 (b2 AND 0xF) OR drop_bit 6 b3),
          enc6 (b3 AND 0x3F)]
         @ encode_bytes (drop 2 xs))"

text \<open>
  \<open>plantuml_encode\<close>. \<open>zlib.compress(raw, 9)\<close> belongs to the zlib library, not to the
  repository: the compressor is the parameter \<open>Z\<close>. The slice \<open>comp[2:-4]\<close> is empty when
  \<open>comp\<close> has fewer than 7 bytes.
\<close>

definition plantuml_encode :: "(bytes \<Rightarrow> bytes) \<Rightarrow> str \<Rightarrow> exn + str" where
  "plantuml_encode Z tx =
     (case utf8_encode tx of
        Inl e \<Rightarrow> Inl e
      | Inr raw \<Rightarrow>
          (let comp = Z raw in Inr (encode_bytes (drop 2 (take (length comp - 4) comp)))))"

section \<open>The environment\<close>

text \<open>
  \<open>str(e)\<close> for an exception. The message of a \<open>UnicodeEncodeError\<close> names the
  character when one surrogate stands alone and the range of positions otherwise.
\<close>

definition hex4 :: "nat \<Rightarrow> str" where
  "hex4 n = map (\<lambda>d. if d < 10 then 48 + d else 87 + d)
              [n div 4096 mod 16, n div 256 mod 16, n div 16 mod 16, n mod 16]"

definition exn_str :: "exn \<Rightarrow> str" where
  "exn_str e =
     (case e of
        RuntimeError m \<Rightarrow> m
      | RequestException m \<Rightarrow> m
      | OSError m \<Rightarrow> m
      | UnicodeEncodeError c i j \<Rightarrow>
          [39] @ asc ''utf-8'' @ [39] @ asc '' codec can'' @ [39] @ asc ''t encode ''
          @ (if j = i + 1
             then asc ''character '' @ [39, 92, 117] @ hex4 c @ [39] @ asc '' in position ''
                  @ decimal i
             else asc ''characters in position '' @ decimal i @ asc ''-'' @ decimal (j - 1))
          @ asc '': surrogates not allowed'')"

text \<open>
  An HTTP exchange as the program sees it through \<open>requests\<close>: the request it hands
  over, and either the response (its status code and its body) or the exception raised.
\<close>

record response =
  status_code :: nat
  content :: bytes

datatype verb = HTTP_GET | HTTP_POST

record request =
  verb :: verb
  url :: str
  body :: bytes
  headers :: "(str \<times> str) list"
  timeout_seconds :: nat

text \<open>
  What lies outside the program: the character database and the compressor of the
  interpreter, and the operations on the world \<open>'w\<close> (the network, the clock, the file
  system). Each operation takes the world and gives it back changed. \<open>http\<close> answers a
  request with a response or raises; \<open>time_time\<close> reads the clock in seconds;
  \<open>time_sleep\<close> waits; \<open>write_file\<close> is \<open>open(path, "wb")\<close> followed by the write of all
  bytes, and gives the exception if either fails.
\<close>

record 'w env =
  unicode :: unicode_db
  zlib_compress :: "bytes \<Rightarrow> bytes"
  http :: "request \<Rightarrow> 'w \<Rightarrow> (exn + response) \<times> 'w"
  time_time :: "'w \<Rightarrow> real \<times> 'w"
  time_sleep :: "real \<Rightarrow> 'w \<Rightarrow> 'w"
  write_file :: "str \<Rightarrow> bytes \<Rightarrow> 'w \<Rightarrow> exn option \<times> 'w"

text \<open>
  The state of a run: the world, and two logs that only record what the program did,
  the requests it attempted and the files it wrote completely, oldest first.
\<close>

record 'w state =
  world :: 'w
  attempted :: "request list"
  written :: "(str \<times> bytes) list"

definition requests_send :: "'w env \<Rightarrow> request \<Rightarrow> 'w state \<Rightarrow> (exn + response) \<times> 'w state" where
  "requests_send E rq s =
     (case http E rq (world s) of
        (r, w) \<Rightarrow> (r, s\<lparr>world := w, attempted := attempted s @ [rq]\<rparr>))"

definition write_png :: "'w env \<Rightarrow> str \<Rightarrow> bytes \<Rightarrow> 'w state \<Rightarrow> exn option \<times> 'w state" where
  "write_png E path img s =
     (case write_file E path img (world s) of
        (None, w) \<Rightarrow> (None, s\<lparr>world := w, written := written s @ [(path, img)]\<rparr>)
      | (Some e, w) \<Rightarrow> (Some e, s\<lparr>world := w\<rparr>))"

section \<open>HTTP helpers\<close>

definition HEADERS :: "(str \<times> str) list" where
  "HEADERS =
     [(asc ''Content-Type'', asc ''text/plain; charset=utf-8''),
      (asc ''Accept'', asc ''image/png''),
      (asc ''User-Agent'', asc ''batch_export/3.1'')]"

text \<open>\<^verbatim>\<open>_PNG_MAGIC = b"\x89PNG\r\n\x1a\n"\<close> and \<open>_is_png\<close>:
  \<open>resp.content.startswith(_PNG_MAGIC)\<close>.\<close>

definition PNG_MAGIC :: bytes where
  "PNG_MAGIC = [0x89, 0x50, 0x4E, 0x47, 0x0D, 0x0A, 0x1A, 0x0A]"

definition is_png :: "response \<Rightarrow> bool" where
  "is_png resp \<longleftrightarrow> prefix PNG_MAGIC (content resp)"

text \<open>The request of \<open>_export_post\<close>:
  \<open>requests.post(base + "/png", data=diagram.encode(), headers=_HEADERS, timeout=30)\<close>.\<close>

definition post_request :: "str \<Rightarrow> bytes \<Rightarrow> request" where
  "post_request base data =
     \<lparr>verb = HTTP_POST, url = base @ asc ''/png'', body = data, headers = HEADERS,
      timeout_seconds = 30\<rparr>"

text \<open>The request of \<open>_export_get\<close>: the payload in the path, below the base without its
  trailing slashes; only the \<open>User-Agent\<close> header.\<close>

definition get_request :: "str \<Rightarrow> str \<Rightarrow> request" where
  "get_request base code =
     \<lparr>verb = HTTP_GET, url = rstrip_slash base @ asc ''/png/'' @ code, body = [],
      headers = [(asc ''User-Agent'', asc ''batch_export/3.1'')], timeout_seconds = 30\<rparr>"

text \<open>\<open>_export_post\<close>: the body of the response when it is a PNG image, \<open>None\<close> when it is
  not; an exception of the encoding or of the request is not caught.\<close>

definition export_post :: "'w env \<Rightarrow> str \<Rightarrow> str \<Rightarrow> 'w state \<Rightarrow> (exn + bytes option) \<times> 'w state" where
  "export_post E diagram base s =
     (case utf8_encode diagram of
        Inl e \<Rightarrow> (Inl e, s)
      | Inr data \<Rightarrow>
          (case requests_send E (post_request base data) s of
             (Inl e, s1) \<Rightarrow> (Inl e, s1)
           | (Inr r, s1) \<Rightarrow> (Inr (if is_png r then Some (content r) else None), s1)))"

text \<open>\<open>_export_get\<close>: the body of the response when it is a PNG image, and otherwise
  \<open>RuntimeError(f"GET failed: HTTP {r.status_code}")\<close>.\<close>

definition export_get :: "'w env \<Rightarrow> str \<Rightarrow> str \<Rightarrow> 'w state \<Rightarrow> (exn + bytes) \<times> 'w state" where
  "export_get E diagram base s =
     (case plantuml_encode (zlib_compress E) diagram of
        Inl e \<Rightarrow> (Inl e, s)
      | Inr code \<Rightarrow>
          (case requests_send E (get_request base code) s of
             (Inl e, s1) \<Rightarrow> (Inl e, s1)
           | (Inr r, s1) \<Rightarrow>
               if is_png r then (Inr (content r), s1)
               else (Inl (RuntimeError (asc ''GET failed: HTTP '' @ decimal (status_code r))),
                     s1)))"

text \<open>
  \<open>export_png\<close>. The method is compared in upper case; whatever is neither \<open>POST\<close> nor
  \<open>GET\<close> is served as \<open>AUTO\<close>: \<open>_export_post(diagram, base) or _export_get(diagram, base)\<close>,
  where \<open>or\<close> takes its right operand when the left one is \<open>None\<close> or empty.
\<close>

definition export_png :: "'w env \<Rightarrow> str \<Rightarrow> str \<Rightarrow> str \<Rightarrow> 'w state \<Rightarrow> (exn + bytes) \<times> 'w state" where
  "export_png E diagram base method s =
     (if upper (unicode E) method = asc ''POST'' then
        (case export_post E diagram base s of
           (Inl e, s1) \<Rightarrow> (Inl e, s1)
         | (Inr None, s1) \<Rightarrow>
             (Inl (RuntimeError (asc ''Server did not return PNG on POST.'')), s1)
         | (Inr (Some img), s1) \<Rightarrow> (Inr img, s1))
      else if upper (unicode E) method = asc ''GET'' then export_get E diagram base s
      else
        (case export_post E diagram base s of
           (Inl e, s1) \<Rightarrow> (Inl e, s1)
         | (Inr None, s1) \<Rightarrow> export_get E diagram base s1
         | (Inr (Some img), s1) \<Rightarrow>
             if img \<noteq> [] then (Inr img, s1) else export_get E diagram base s1))"

section \<open>The batch\<close>

text \<open>The counters of \<open>run_exports\<close>: \<open>ok\<close>, \<open>fail\<close> and the list \<open>failures\<close>.\<close>

record counters =
  ok :: nat
  fail :: nat
  failures :: "(str \<times> str) list"

text \<open>
  The body of the \<open>try\<close> for one unit: the export, then the write of the image to
  \<open>os.path.join(out_dir, f"{name}.png")\<close>. The result is the exception that
  \<open>except Exception\<close> catches, if one is raised.
\<close>

definition export_one :: "'w env \<Rightarrow> str \<Rightarrow> str \<Rightarrow> str \<Rightarrow> str \<times> str \<Rightarrow> 'w state \<Rightarrow> exn option \<times> 'w state" where
  "export_one E base method out_dir unit s =
     (case export_png E (snd unit) base method s of
        (Inl e, s1) \<Rightarrow> (Some e, s1)
      | (Inr img, s1) \<Rightarrow> write_png E (path_join out_dir (fst unit @ asc ''.png'')) img s1)"

text \<open>The loop of \<open>run_exports\<close> over the units that are left.\<close>

fun export_units :: "'w env \<Rightarrow> str \<Rightarrow> str \<Rightarrow> str \<Rightarrow> (str \<times> str) list \<Rightarrow> counters \<Rightarrow> 'w state \<Rightarrow> counters \<times> 'w state" where
  "export_units E base method out_dir [] c s = (c, s)"
| "export_units E base method out_dir (unit # units) c s =
     (case export_one E base method out_dir unit s of
        (None, s1) \<Rightarrow> export_units E base method out_dir units (c\<lparr>ok := ok c + 1\<rparr>) s1
      | (Some e, s1) \<Rightarrow>
          export_units E base method out_dir units
            (c\<lparr>fail := fail c + 1, failures := failures c @ [(fst unit, exn_str e)]\<rparr>) s1)"

text \<open>
  \<open>run_exports\<close>: the counters at the end, and the code of \<open>sys.exit\<close> when it is called
  (\<open>None\<close> when the function returns). \<open>exit_status\<close> is the status of the process when
  \<open>run_exports\<close> is the last call of \<open>main\<close>: an exit code if one was raised, else 0.
\<close>

definition run_exports :: "'w env \<Rightarrow> str \<Rightarrow> str \<Rightarrow> str \<Rightarrow> str \<Rightarrow> 'w state \<Rightarrow> (counters \<times> nat option) \<times> 'w state" where
  "run_exports E source base method out_dir s =
     (case export_units E base method out_dir (iter_diagrams (unicode E) source)
             \<lparr>ok = 0, fail = 0, failures = []\<rparr> s of
        (c, s1) \<Rightarrow> ((c, if failures c \<noteq> [] \<and> fail c \<noteq> 0 then Some 1 else None), s1))"

definition exit_status :: "nat option \<Rightarrow> nat" where
  "exit_status raised = (case raised of Some n \<Rightarrow> n | None \<Rightarrow> 0)"

section \<open>Docker helpers\<close>

text \<open>
  The loop of \<open>_wait_for_server\<close>. It runs as long as the clock allows and may run for
  ever when the clock does not advance, so its result is optional: \<open>None\<close> when it does
  not return. It returns \<open>Inr ()\<close> when the server is up, the \<open>RuntimeError\<close> of the
  timeout, or an exception that the \<open>except\<close> clause does not catch.
\<close>

definition probe_request :: "str \<Rightarrow> request" where
  "probe_request u = \<lparr>verb = HTTP_GET, url = u, body = [], headers = [], timeout_seconds = 2\<rparr>"

definition is_RequestException :: "exn \<Rightarrow> bool" where
  "is_RequestException e = (case e of RequestException m \<Rightarrow> True | _ \<Rightarrow> False)"

partial_function (option) wait_loop :: "'w env \<Rightarrow> str \<Rightarrow> real \<Rightarrow> real \<Rightarrow> 'w state \<Rightarrow> ((exn + unit) \<times> 'w state) option" where
  "wait_loop E u t0 timeout s =
     (case time_time E (world s) of
        (t, w) \<Rightarrow>
          if t - t0 < timeout then
            (case requests_send E (probe_request u) (s\<lparr>world := w\<rparr>) of
               (Inr r, s1) \<Rightarrow>
                 if status_code r = 200 \<or> status_code r = 400 then Some (Inr (), s1)
                 else wait_loop E u t0 timeout (s1\<lparr>world := time_sleep E 1.5 (world s1)\<rparr>)
             | (Inl e, s1) \<Rightarrow>
                 if is_RequestException e
                 then wait_loop E u t0 timeout (s1\<lparr>world := time_sleep E 1.5 (world s1)\<rparr>)
                 else Some (Inl e, s1))
          else
            Some (Inl (RuntimeError
                    (asc ''Timed out waiting for local PlantUML server to start.'')),
                  s\<lparr>world := w\<rparr>))"

text \<open>\<open>_wait_for_server(port, timeout)\<close>: the probe is the GET of the empty diagram.\<close>

definition wait_for_server :: "'w env \<Rightarrow> nat \<Rightarrow> real \<Rightarrow> 'w state \<Rightarrow> ((exn + unit) \<times> 'w state) option" where
  "wait_for_server E port timeout s =
     (case plantuml_encode (zlib_compress E) (asc ''@startuml\<newline>@enduml\<newline>'') of
        Inl e \<Rightarrow> Some (Inl e, s)
      | Inr code \<Rightarrow>
          (case time_time E (world s) of
             (t0, w) \<Rightarrow>
               wait_loop E (asc ''http://localhost:'' @ decimal port @ asc ''/png/'' @ code)
                 t0 timeout (s\<lparr>world := w\<rparr>)))"

section \<open>Vocabulary of the properties\<close>

text \<open>A line is a start directive when \<open>_START_RE.match(line.strip())\<close> succeeds; its
  argument is \<open>group(1)\<close> of that match.\<close>

definition is_start :: "str \<Rightarrow> bool" where
  "is_start l \<longleftrightarrow> START_RE_match (strip l) \<noteq> NoMatch"

definition directive_arg :: "str \<Rightarrow> str option" where
  "directive_arg l = (case START_RE_match (strip l) of Match g \<Rightarrow> g | NoMatch \<Rightarrow> None)"

text \<open>The line that opened each unit: the first line of its buffer.\<close>

definition opening_lines :: "(str \<times> str list) list \<Rightarrow> str list" where
  "opening_lines units = map (\<lambda>u. hd (snd u)) units"

text \<open>
  A document has no nested start directive when no start directive stands on a line
  read while a unit is open. The flag says whether a unit is open; a line containing
  \<open>@enduml\<close> closes it.
\<close>

fun unnested :: "bool \<Rightarrow> str list \<Rightarrow> bool" where
  "unnested opened [] = True"
| "unnested False (l # ls) = unnested (is_start l) ls"
| "unnested True (l # ls) = (\<not> is_start l \<and> unnested (\<not> contains END_DIRECTIVE l) ls)"

text \<open>The set \<open>[A-Za-z0-9_.-]\<close> of the specification, and sanitization as the
  specification words it: every character outside that set becomes an underscore.\<close>

definition spec_safe :: "codepoint \<Rightarrow> bool" where
  "spec_safe c \<longleftrightarrow>
     (of_char CHR ''A'' \<le> c \<and> c \<le> of_char CHR ''Z'') \<or>
     (of_char CHR ''a'' \<le> c \<and> c \<le> of_char CHR ''z'') \<or>
     (of_char CHR ''0'' \<le> c \<and> c \<le> of_char CHR ''9'') \<or>
     c = of_char CHR ''_'' \<or> c = of_char CHR ''.'' \<or> c = of_char CHR ''-''"

definition spec_sanitize :: "str \<Rightarrow> str" where
  "spec_sanitize raw = map (\<lambda>c. if spec_safe c then c else of_char CHR ''_'') raw"

text \<open>The 64 symbols \<open>0-9A-Za-z-_\<close> of the specification.\<close>

definition spec_alphabet :: "codepoint \<Rightarrow> bool" where
  "spec_alphabet c \<longleftrightarrow>
     (of_char CHR ''0'' \<le> c \<and> c \<le> of_char CHR ''9'') \<or>
     (of_char CHR ''A'' \<le> c \<and> c \<le> of_char CHR ''Z'') \<or>
     (of_char CHR ''a'' \<le> c \<and> c \<le> of_char CHR ''z'') \<or>
     c = of_char CHR ''-'' \<or> c = of_char CHR ''_''"

text \<open>
  The outcome of each unit of a batch, in order: the exception that the attempt on the
  unit raised (in the export or in the write of its file), or \<open>None\<close>. Each attempt
  starts in the state the one before has left. From the outcomes, the failure entries
  that the specification asks for and the paths of the files of the units that did not
  fail.
\<close>

fun outcomes :: "'w env \<Rightarrow> str \<Rightarrow> str \<Rightarrow> str \<Rightarrow> (str \<times> str) list \<Rightarrow> 'w state \<Rightarrow> exn option list" where
  "outcomes E base method out_dir [] s = []"
| "outcomes E base method out_dir (unit # units) s =
     (case export_one E base method out_dir unit s of
        (r, s1) \<Rightarrow> r # outcomes E base method out_dir units s1)"

definition recorded_failures :: "(str \<times> str) list \<Rightarrow> exn option list \<Rightarrow> (str \<times> str) list" where
  "recorded_failures units rs =
     concat (map (\<lambda>(unit, r). case r of Some e \<Rightarrow> [(fst unit, exn_str e)] | None \<Rightarrow> [])
               (zip units rs))"

definition written_paths :: "str \<Rightarrow> (str \<times> str) list \<Rightarrow> exn option list \<Rightarrow> str list" where
  "written_paths out_dir units rs =
     concat (map (\<lambda>(unit, r). case r of
                    None \<Rightarrow> [path_join out_dir (fst unit @ asc ''.png'')]
                  | Some e \<Rightarrow> [])
               (zip units rs))"

section \<open>Inputs of the examples\<close>

text \<open>
  A character database for evaluating examples: no code point above U+00FF is
  alphanumeric and upper-casing leaves code points above U+007F as they are. The
  examples below use characters up to U+00FF only (and ASCII only where a string is
  upper-cased), where the written-out tables decide and this database is not consulted.
\<close>

definition latin1_db :: unicode_db where
  "latin1_db = \<lparr>isalnum_above_latin1 = (\<lambda>c. False), upper_above_ascii = (\<lambda>c. [c])\<rparr>"

text \<open>Two units, the first named by its directive, the second bare.\<close>

definition doc_two :: str where
  "doc_two = asc ''@startuml MyDiagram\<newline>A->B\<newline>@enduml\<newline>@startuml\<newline>C->D\<newline>@enduml\<newline>''"

text \<open>A start directive inside a unit that is still open.\<close>

definition doc_nested :: str where
  "doc_nested = asc ''@startuml\<newline>@startuml\<newline>@enduml\<newline>''"

text \<open>A unit whose third line spells the end directive in upper case.\<close>

definition doc_upper_end :: str where
  "doc_upper_end = asc ''@startuml\<newline>A->B\<newline>@ENDUML\<newline>C->D\<newline>@enduml\<newline>after\<newline>''"

text \<open>
  A compressor for evaluating examples: the zlib container (header \<open>78 DA\<close>, big-endian
  Adler-32 checksum) around one final DEFLATE block with the fixed Huffman code that
  holds every byte as a literal. Every such stream is valid zlib data, and for inputs
  of fewer than three bytes, where no back-reference is possible, it is byte for byte
  what \<open>zlib.compress(raw, 9)\<close> returns: \<open>78 DA 03 00 00 00 00 01\<close> for the empty input
  and \<open>78 DA 4B 04 00 00 62 00 62\<close> for the byte \<open>a\<close>.
\<close>

definition bits8 :: "nat \<Rightarrow> bool list" where
  "bits8 v = map (\<lambda>k. odd (v div k)) [128, 64, 32, 16, 8, 4, 2, 1]"

definition fixed_literal_code :: "byte \<Rightarrow> bool list" where
  "fixed_literal_code b =
     (if unat b < 144 then bits8 (48 + unat b) else True # bits8 (unat b))"

definition byte_of_bits :: "bool list \<Rightarrow> byte" where
  "byte_of_bits bs = of_nat (foldr (\<lambda>b v. of_bool b + 2 * v) bs 0)"

fun pack_lsb :: "bool list \<Rightarrow> bytes" where
  "pack_lsb (b0 # b1 # b2 # b3 # b4 # b5 # b6 # b7 # bs) =
     byte_of_bits [b0, b1, b2, b3, b4, b5, b6, b7] # pack_lsb bs"
| "pack_lsb [] = []"
| "pack_lsb bs = [byte_of_bits bs]"

definition adler32 :: "bytes \<Rightarrow> nat" where
  "adler32 data =
     (case fold (\<lambda>x (a, b). ((a + unat x) mod 65521, (b + (a + unat x) mod 65521) mod 65521))
             data (1, 0)
      of (a, b) \<Rightarrow> b * 65536 + a)"

definition be32 :: "nat \<Rightarrow> bytes" where
  "be32 n =
     [of_nat (n div 16777216), of_nat (n div 65536 mod 256), of_nat (n div 256 mod 256),
      of_nat (n mod 256)]"

definition deflate_literals :: "bytes \<Rightarrow> bytes" where
  "deflate_literals data =
     [0x78, 0xDA]
     @ pack_lsb ([True, True, False] @ concat (map fixed_literal_code data)
                 @ [False, False, False, False, False, False, False])
     @ be32 (adler32 data)"

text \<open>
  A world for evaluating examples. The server is a script: the replies it will give to
  the POST requests and to the GET requests that reach it, in order; a request that
  finds its script empty is refused at the connection. The clock stands still except
  while the program sleeps, and every file can be written.
\<close>

record sim =
  post_replies :: "(exn + response) list"
  get_replies :: "(exn + response) list"
  clock :: real

definition sim_http :: "request \<Rightarrow> sim \<Rightarrow> (exn + response) \<times> sim" where
  "sim_http rq w =
     (case verb rq of
        HTTP_POST \<Rightarrow>
          (case post_replies w of
             [] \<Rightarrow> (Inl (RequestException (asc ''connection refused'')), w)
           | r # rs \<Rightarrow> (r, w\<lparr>post_replies := rs\<rparr>))
      | HTTP_GET \<Rightarrow>
          (case get_replies w of
             [] \<Rightarrow> (Inl (RequestException (asc ''connection refused'')), w)
           | r # rs \<Rightarrow> (r, w\<lparr>get_replies := rs\<rparr>)))"

definition sim_env :: "sim env" where
  "sim_env =
     \<lparr>unicode = latin1_db, zlib_compress = deflate_literals, http = sim_http,
      time_time = (\<lambda>w. (clock w, w)), time_sleep = (\<lambda>d w. w\<lparr>clock := clock w + d\<rparr>),
      write_file = (\<lambda>path img w. (None, w))\<rparr>"

text \<open>The state at the start of a run: nothing attempted, nothing written.\<close>

definition fresh :: "sim \<Rightarrow> sim state" where
  "fresh w = \<lparr>world = w, attempted = [], written = []\<rparr>"

text \<open>An image, an error page, and responses that carry them under several status
  codes.\<close>

definition png_image :: bytes where
  "png_image = PNG_MAGIC @ [1, 2, 3]"

definition error_page :: bytes where
  "error_page = map of_char ''<html>error</html>''"

definition page_200 :: response where
  "page_200 = \<lparr>status_code = 200, content = error_page\<rparr>"

definition image_200 :: response where
  "image_200 = \<lparr>status_code = 200, content = png_image\<rparr>"

definition image_500 :: response where
  "image_500 = \<lparr>status_code = 500, content = png_image\<rparr>"

text \<open>A server that answers the POST with an error page and the GET with an image, and
  one that cannot be reached for the POST and would answer the GET with an image.\<close>

definition world_fallback :: sim where
  "world_fallback = \<lparr>post_replies = [Inr page_200], get_replies = [Inr image_200], clock = 0\<rparr>"

definition world_post_down :: sim where
  "world_post_down = \<lparr>post_replies = [], get_replies = [Inr image_200], clock = 0\<rparr>"

text \<open>Three units named \<open>A\<close>, \<open>B\<close>, \<open>C\<close>; three units of which the first and the third
  are both named \<open>A\<close>; a server that answers the second of three POST requests with an
  error page.\<close>

definition doc_three :: str where
  "doc_three = asc ''@startuml A\<newline>@enduml\<newline>@startuml B\<newline>@enduml\<newline>@startuml C\<newline>@enduml\<newline>''"

definition doc_same_name :: str where
  "doc_same_name = asc ''@startuml A\<newline>@enduml\<newline>@startuml B\<newline>@enduml\<newline>@startuml A\<newline>@enduml\<newline>''"

definition world_second_fails :: sim where
  "world_second_fails =
     \<lparr>post_replies = [Inr image_200, Inr page_200, Inr image_200], get_replies = [], clock = 0\<rparr>"

text \<open>A server that refuses the first connection and then answers with status 400.\<close>

definition refused_then_400 :: sim where
  "refused_then_400 =
     \<lparr>post_replies = [],
      get_replies = [Inl (RequestException (asc ''connection refused'')),
                     Inr \<lparr>status_code = 400, content = error_page\<rparr>],
      clock = 0\<rparr>"

section \<open>The tokenizer\<close>

lemmas eval_defs = asc_def splitlines_def is_linebreak_def START_RE_match_def strip_def
  isspace_def ieq_def END_DIRECTIVE_def raw_name_def sanitize_def is_word_def fmt02_def
  decimal.simps is_start_def directive_arg_def iter_diagrams_def opening_lines_def
  spec_safe_def spec_sanitize_def latin1_db_def

subsection \<open>Sanitization\<close>

lemma spec_safe_ascii: "spec_safe c \<longleftrightarrow> c < 128 \<and> (is_word U c \<or> c = 45 \<or> c = 46)"
  by (auto simp: spec_safe_def is_word_def)

lemma sanitize_nth:
  "i < length raw \<Longrightarrow> sanitize U raw ! i =
     (if spec_safe (raw ! i) \<or> (128 \<le> raw ! i \<and> is_word U (raw ! i)) then raw ! i else 95)"
  by (auto simp: sanitize_def spec_safe_ascii [of _ U])

text \<open>
  Claim C6, as amended. Sanitization keeps the length of the name. A character is kept
  when it is in \<open>[A-Za-z0-9_.-]\<close> or is a word character above U+007F (the class \<open>\w\<close>
  of the pattern matches the letters and digits of every script); every other character
  becomes an underscore. On a name of ASCII characters this is the replacement of every
  character outside \<open>[A-Za-z0-9_.-]\<close>, and \<open>foo bar!\<close> becomes \<open>foo_bar_\<close>.
\<close>

theorem sanitize_keeps_word_characters:
  "length (sanitize U raw) = length raw \<and>
   (\<forall>i<length raw. sanitize U raw ! i =
      (if spec_safe (raw ! i) \<or> (128 \<le> raw ! i \<and> is_word U (raw ! i)) then raw ! i else 95)) \<and>
   ((\<forall>c\<in>set raw. c < 128) \<longrightarrow> sanitize U raw = spec_sanitize raw) \<and>
   sanitize U (asc ''foo bar!'') = asc ''foo_bar_''"
proof -
  have "sanitize U raw = spec_sanitize raw" if "\<forall>c\<in>set raw. c < 128"
    using that unfolding sanitize_def spec_sanitize_def
    by (intro map_cong refl) (auto simp: spec_safe_ascii [of _ U])
  moreover have "sanitize U (asc ''foo bar!'') = asc ''foo_bar_''"
    by (simp add: sanitize_def asc_def is_word_def)
  moreover have "length (sanitize U raw) = length raw"
    by (simp add: sanitize_def)
  ultimately show ?thesis using sanitize_nth [of _ raw U] by blast
qed

text \<open>The name \<open>caf\<close>, U+00E9, \<open>!\<close>: the accented letter is kept and the exclamation
  mark replaced; an ASCII name is sanitized as the specification words it.\<close>

theorem sanitize_keeps_word_characters_witness:
  "sanitize latin1_db [99, 97, 102, 233, 33] ! 3 = 233 \<and>
   sanitize latin1_db [99, 97, 102, 233, 33] ! 4 = 95 \<and>
   sanitize latin1_db (asc ''a-b.c_9'') = spec_sanitize (asc ''a-b.c_9'')"
proof -
  note t = sanitize_keeps_word_characters [of latin1_db "[99, 97, 102, 233, 33]"]
  from t have "sanitize latin1_db [99, 97, 102, 233, 33] ! 3 = 233"
    by (simp add: spec_safe_def is_word_def)
  moreover from t have "sanitize latin1_db [99, 97, 102, 233, 33] ! 4 = 95"
    by (simp add: spec_safe_def is_word_def)
  moreover have "sanitize latin1_db (asc ''a-b.c_9'') = spec_sanitize (asc ''a-b.c_9'')"
    using sanitize_keeps_word_characters [of latin1_db "asc ''a-b.c_9''"] by (simp add: asc_def)
  ultimately show ?thesis by blast
qed

text \<open>The name \<open>caf\<close>, U+00E9 is left as it is, where replacing every character
  outside \<open>[A-Za-z0-9_.-]\<close> gives \<open>caf_\<close>.\<close>

theorem sanitize_ascii_set_counterexample:
  "sanitize latin1_db [99, 97, 102, 233] = [99, 97, 102, 233] \<and>
   spec_sanitize [99, 97, 102, 233] = asc ''caf_''"
  by (simp add: eval_defs)

subsection \<open>The scan\<close>

lemma contains_sublist: "contains sub s \<longleftrightarrow> sublist sub s"
  by (induction s) (auto simp: sublist_Cons_right)

lemma collect_takeWhile:
  "collect ls =
     (takeWhile (\<lambda>l. \<not> contains END_DIRECTIVE l) ls
        @ take 1 (dropWhile (\<lambda>l. \<not> contains END_DIRECTIVE l) ls),
      drop 1 (dropWhile (\<lambda>l. \<not> contains END_DIRECTIVE l) ls))"
  by (induction ls) auto

lemma suffix_snd_collect: "suffix (snd (collect ls)) ls"
  by (induction ls) (auto simp: suffix_Cons split: prod.splits)

lemma subseq_filter_collect: "subseq (filter P (snd (collect ls))) (filter P ls)"
  using suffix_snd_collect [of ls]
  by (metis sublist_imp_subseq suffix_imp_sublist subseq_filter)

lemma length_iter_diagrams:
  "length (iter_diagrams U doc) = length (iter_units U 1 (splitlines doc))"
  by (simp add: iter_diagrams_def)

lemma fst_iter_diagrams:
  "k < length (iter_units U 1 (splitlines doc)) \<Longrightarrow>
     fst (iter_diagrams U doc ! k) = fst (iter_units U 1 (splitlines doc) ! k)"
  by (simp add: iter_diagrams_def split: prod.splits)

lemma iter_units_heads_subseq:
  "subseq (map (\<lambda>u. hd (snd u)) (iter_units U c ls)) (filter is_start ls)"
proof (induction U c ls rule: iter_units.induct)
  case (1 U c)
  show ?case by simp
next
  case (2 U c l ls)
  show ?case
  proof (cases "START_RE_match (strip l)")
    case NoMatch
    with 2 show ?thesis by (simp add: is_start_def)
  next
    case (Match g)
    then have st: "is_start l" by (simp add: is_start_def)
    have "subseq (map (\<lambda>u. hd (snd u)) (iter_units U (c + 1) (snd (collect ls))))
            (filter is_start ls)"
      using 2(2) [OF Match] subseq_filter_collect [of is_start ls]
      by (rule subseq_order.trans)
    with Match st show ?thesis by simp
  qed
qed

lemma unnested_collect:
  "unnested True ls \<Longrightarrow>
     filter is_start (snd (collect ls)) = filter is_start ls \<and> unnested False (snd (collect ls))"
  by (induction ls) (auto split: prod.splits)

lemma iter_units_heads_unnested:
  "unnested False ls \<Longrightarrow> map (\<lambda>u. hd (snd u)) (iter_units U c ls) = filter is_start ls"
proof (induction U c ls rule: iter_units.induct)
  case (1 U c)
  show ?case by simp
next
  case (2 U c l ls)
  show ?case
  proof (cases "START_RE_match (strip l)")
    case NoMatch
    with 2 show ?thesis by (simp add: is_start_def)
  next
    case (Match g)
    then have st: "is_start l" by (simp add: is_start_def)
    with 2(3) have "unnested True ls" by simp
    from unnested_collect [OF this] 2(2) [OF Match] Match st
    show ?thesis by simp
  qed
qed

lemma iter_units_names:
  "k < length (iter_units U c ls) \<Longrightarrow>
     is_start (hd (snd (iter_units U c ls ! k))) \<and>
     fst (iter_units U c ls ! k) =
       sanitize U (raw_name (c + k) (directive_arg (hd (snd (iter_units U c ls ! k)))))"
proof (induction U c ls arbitrary: k rule: iter_units.induct)
  case (1 U c)
  then show ?case by simp
next
  case (2 U c l ls)
  show ?case
  proof (cases "START_RE_match (strip l)")
    case NoMatch
    with 2 show ?thesis by simp
  next
    case (Match g)
    show ?thesis
    proof (cases k)
      case 0
      with Match show ?thesis by (simp add: is_start_def directive_arg_def)
    next
      case (Suc j)
      with 2(3) Match have "j < length (iter_units U (c + 1) (snd (collect ls)))" by simp
      from 2(2) [OF Match this] Match Suc show ?thesis by simp
    qed
  qed
qed

lemma iter_units_suffix:
  "(name, buf) \<in> set (iter_units U c ls) \<Longrightarrow>
     \<exists>l rest. buf = l # fst (collect rest) \<and> suffix (l # rest) ls \<and> is_start l"
proof (induction U c ls rule: iter_units.induct)
  case (1 U c)
  then show ?case by simp
next
  case (2 U c l ls)
  show ?case
  proof (cases "START_RE_match (strip l)")
    case NoMatch
    with 2 show ?thesis by (auto simp: suffix_Cons)
  next
    case (Match g)
    show ?thesis
    proof (cases "(name, buf) \<in> set (iter_units U (c + 1) (snd (collect ls)))")
      case True
      from 2(2) [OF Match True] obtain l' rest where
        "buf = l' # fst (collect rest)" "suffix (l' # rest) (snd (collect ls))" "is_start l'"
        by blast
      moreover have "suffix (snd (collect ls)) (l # ls)"
        using suffix_snd_collect [of ls] by (simp add: suffix_Cons)
      ultimately have
        "buf = l' # fst (collect rest) \<and> suffix (l' # rest) (l # ls) \<and> is_start l'"
        using suffix_order.trans by blast
      then show ?thesis by blast
    next
      case False
      with 2(3) Match have "buf = l # fst (collect ls)" by simp
      with Match show ?thesis by (auto simp: is_start_def)
    qed
  qed
qed

lemma decimal_digits: "set (decimal n) \<subseteq> {48..57}"
proof (induction n rule: decimal.induct)
  case (1 n)
  show ?case
  proof (cases "n < 10")
    case True
    then show ?thesis by (subst decimal.simps) auto
  next
    case False
    with 1 have "set (decimal (n div 10)) \<subseteq> {48..57}" by simp
    moreover have "48 + n mod 10 \<in> {48..57::nat}" by simp
    ultimately show ?thesis using False by (subst decimal.simps) auto
  qed
qed

lemma sanitize_fallback:
  "sanitize U (asc ''diagram_'' @ fmt02 n) = asc ''diagram_'' @ fmt02 n"
proof -
  have "\<forall>c \<in> set (fmt02 n). is_word U c"
    using decimal_digits [of n] by (auto simp: fmt02_def is_word_def)
  then have "sanitize U (fmt02 n) = fmt02 n"
    unfolding sanitize_def by (simp add: map_idI)
  moreover have "sanitize U (xs @ ys) = sanitize U xs @ sanitize U ys" for xs ys
    by (simp add: sanitize_def)
  ultimately show ?thesis by (simp add: sanitize_def asc_def is_word_def)
qed

lemma doc_two_units:
  "iter_units latin1_db (Suc 0) (splitlines doc_two) =
     [(asc ''MyDiagram'', [asc ''@startuml MyDiagram'', asc ''A->B'', asc ''@enduml'']),
      (asc ''diagram_02'', [asc ''@startuml'', asc ''C->D'', asc ''@enduml''])]"
  by (simp add: doc_two_def eval_defs)

subsection \<open>Names\<close>

text \<open>
  Claim C7. The unit at position \<open>k\<close> (from 0) was opened by a start directive, the first
  line of its buffer. Its name is the argument of that directive when there is one
  (sanitized), and otherwise \<open>diagram_\<close> followed by \<open>k + 1\<close> in at least two digits: the
  counter starts at 1 and has advanced once for each unit opened before, named or not.
\<close>

theorem unit_name_from_directive_or_counter:
  "k < length (iter_diagrams U doc) \<Longrightarrow>
     is_start (hd (snd (iter_units U 1 (splitlines doc) ! k))) \<and>
     fst (iter_diagrams U doc ! k) =
       (case directive_arg (hd (snd (iter_units U 1 (splitlines doc) ! k))) of
          Some a \<Rightarrow> sanitize U a
        | None \<Rightarrow> asc ''diagram_'' @ fmt02 (k + 1))"
proof -
  assume "k < length (iter_diagrams U doc)"
  then have k: "k < length (iter_units U 1 (splitlines doc))"
    by (simp add: length_iter_diagrams)
  from iter_units_names [OF k] fst_iter_diagrams [OF k] show ?thesis
    by (auto simp: raw_name_def sanitize_fallback split: option.splits)
qed

text \<open>The document \<open>@startuml MyDiagram\<close> ... \<open>@startuml\<close> ...: the names are
  \<open>MyDiagram\<close> and \<open>diagram_02\<close>.\<close>

theorem unit_name_from_directive_or_counter_witness:
  "length (iter_diagrams latin1_db doc_two) = 2 \<and>
   fst (iter_diagrams latin1_db doc_two ! 0) = asc ''MyDiagram'' \<and>
   fst (iter_diagrams latin1_db doc_two ! 1) = asc ''diagram_02''"
proof -
  have len: "length (iter_diagrams latin1_db doc_two) = 2"
    by (simp add: length_iter_diagrams doc_two_units)
  from unit_name_from_directive_or_counter [of 0 latin1_db doc_two] len
  have "fst (iter_diagrams latin1_db doc_two ! 0) = asc ''MyDiagram''"
    by (simp add: doc_two_units) (simp add: eval_defs)
  moreover from unit_name_from_directive_or_counter [of 1 latin1_db doc_two] len
  have "fst (iter_diagrams latin1_db doc_two ! 1) = asc ''diagram_02''"
    by (simp add: doc_two_units) (simp add: eval_defs)
  ultimately show ?thesis using len by blast
qed

subsection \<open>Number and order of the units\<close>

text \<open>
  Claim C4, as amended. The lines that opened the units are start directives of the
  document, in the order of the document, so there are at most as many units as start
  directives. When no start directive stands inside a unit that is still open, every
  start directive opens a unit: the units are as many as the start directives and were
  opened by them in document order.
\<close>

theorem units_follow_start_directives:
  "length (iter_diagrams U doc) \<le> length (filter is_start (splitlines doc)) \<and>
   subseq (opening_lines (iter_units U 1 (splitlines doc))) (filter is_start (splitlines doc)) \<and>
   (unnested False (splitlines doc) \<longrightarrow>
      length (iter_diagrams U doc) = length (filter is_start (splitlines doc)) \<and>
      opening_lines (iter_units U 1 (splitlines doc)) = filter is_start (splitlines doc))"
proof -
  let ?us = "iter_units U 1 (splitlines doc)"
  let ?ss = "filter is_start (splitlines doc)"
  have sub: "subseq (opening_lines ?us) ?ss"
    unfolding opening_lines_def by (rule iter_units_heads_subseq)
  have len: "length (opening_lines ?us) = length (iter_diagrams U doc)"
    by (simp add: opening_lines_def length_iter_diagrams)
  from sub have "length (opening_lines ?us) \<le> length ?ss"
    by (rule list_emb_length)
  with len have le: "length (iter_diagrams U doc) \<le> length ?ss" by simp
  have "opening_lines ?us = ?ss" if "unnested False (splitlines doc)"
    unfolding opening_lines_def using that by (rule iter_units_heads_unnested)
  with len le sub show ?thesis by metis
qed

text \<open>Two start directives, each after the end of the unit before: two units.\<close>

theorem units_follow_start_directives_witness:
  "unnested False (splitlines doc_two) \<and>
   length (filter is_start (splitlines doc_two)) = 2 \<and>
   length (iter_diagrams latin1_db doc_two) = 2 \<and>
   opening_lines (iter_units latin1_db 1 (splitlines doc_two)) =
     [asc ''@startuml MyDiagram'', asc ''@startuml'']"
proof -
  have u: "unnested False (splitlines doc_two)"
    by (simp add: doc_two_def eval_defs)
  have f: "filter is_start (splitlines doc_two) = [asc ''@startuml MyDiagram'', asc ''@startuml'']"
    by (simp add: doc_two_def eval_defs)
  from units_follow_start_directives [of latin1_db doc_two] u f show ?thesis by simp
qed

text \<open>Two start directives, the second inside the unit the first opened: one unit.\<close>

theorem nested_start_directive_counterexample:
  "length (filter is_start (splitlines doc_nested)) = 2 \<and>
   length (iter_diagrams latin1_db doc_nested) = 1"
  by (simp add: doc_nested_def eval_defs)

subsection \<open>The end of a unit\<close>

lemma isspace_upper: "isspace (ascii_upper c) = isspace c"
  by (auto simp: isspace_def ascii_upper_def)

lemma strip_upper: "strip (map ascii_upper s) = map ascii_upper (strip s)"
  by (simp add: strip_def dropWhile_map rev_map comp_def isspace_upper)

lemma ieq_upper: "p \<in> set (asc ''@startuml'') \<Longrightarrow> ieq p (ascii_upper c) = ieq p c"
  by (auto simp: ieq_def ascii_upper_def asc_def)

lemma imatch_upper:
  "set ps \<subseteq> set (asc ''@startuml'') \<Longrightarrow>
     imatch_prefix ps (map ascii_upper s) = imatch_prefix ps s"
  by (induction ps s rule: imatch_prefix.induct) (auto simp: ieq_upper)

lemma is_start_upper: "is_start (map ascii_upper l) = is_start l"
  using imatch_upper [of "asc ''@startuml''" "strip l"]
  by (simp add: is_start_def START_RE_match_def strip_upper Let_def)

text \<open>
  Claim C10. A line is a start directive whatever the case of its letters. The test for
  the end of a unit is the occurrence of the code points of \<open>@enduml\<close>, as they are, in
  the line. Of the lines that follow a start directive the unit takes those before the
  first that contains \<open>@enduml\<close>, and that line; the scan goes on after it. Every unit of
  a document is such a block: a start directive and what \<open>collect\<close> takes of the lines
  after it. \<open>@ENDUML\<close> and \<open>@EndUml\<close> do not contain \<open>@enduml\<close>, so such a line stays
  inside the unit.
\<close>

theorem end_directive_is_case_sensitive:
  "is_start (map ascii_upper l) = is_start l \<and>
   (contains END_DIRECTIVE l \<longleftrightarrow> sublist (asc ''@enduml'') l) \<and>
   collect ls =
     (takeWhile (\<lambda>l. \<not> sublist (asc ''@enduml'') l) ls
        @ take 1 (dropWhile (\<lambda>l. \<not> sublist (asc ''@enduml'') l) ls),
      drop 1 (dropWhile (\<lambda>l. \<not> sublist (asc ''@enduml'') l) ls)) \<and>
   ((name, buf) \<in> set (iter_units U c lines) \<longrightarrow>
      (\<exists>s rest. suffix (s # rest) lines \<and> is_start s \<and> buf = s # fst (collect rest))) \<and>
   \<not> contains END_DIRECTIVE (asc ''@ENDUML'') \<and>
   \<not> contains END_DIRECTIVE (asc ''@EndUml'')"
proof -
  have a: "contains END_DIRECTIVE x \<longleftrightarrow> sublist (asc ''@enduml'') x" for x
    by (simp add: contains_sublist END_DIRECTIVE_def)
  have b: "(name, buf) \<in> set (iter_units U c lines) \<longrightarrow>
      (\<exists>s rest. suffix (s # rest) lines \<and> is_start s \<and> buf = s # fst (collect rest))"
    using iter_units_suffix [of name buf U c lines] by blast
  have c: "\<not> contains END_DIRECTIVE (asc ''@ENDUML'')"
    by (simp add: END_DIRECTIVE_def asc_def)
  have d: "\<not> contains END_DIRECTIVE (asc ''@EndUml'')"
    by (simp add: END_DIRECTIVE_def asc_def)
  from collect_takeWhile [of ls] have e: "collect ls =
     (takeWhile (\<lambda>l. \<not> sublist (asc ''@enduml'') l) ls
        @ take 1 (dropWhile (\<lambda>l. \<not> sublist (asc ''@enduml'') l) ls),
      drop 1 (dropWhile (\<lambda>l. \<not> sublist (asc ''@enduml'') l) ls))"
    by (simp only: a)
  from a [of l] b c d e is_start_upper [of l] show ?thesis by blast
qed

text \<open>The unit of \<open>doc_upper_end\<close> runs over the line \<open>@ENDUML\<close> to the line
  \<open>@enduml\<close>; the line \<open>@STARTUML\<close> is a start directive as \<open>@startuml\<close> is.\<close>

theorem end_directive_is_case_sensitive_witness:
  "iter_units latin1_db 1 (splitlines doc_upper_end) =
     [(asc ''diagram_01'',
       [asc ''@startuml'', asc ''A->B'', asc ''@ENDUML'', asc ''C->D'', asc ''@enduml''])] \<and>
   (\<exists>s rest. suffix (s # rest) (splitlines doc_upper_end) \<and> is_start s \<and>
      [asc ''@startuml'', asc ''A->B'', asc ''@ENDUML'', asc ''C->D'', asc ''@enduml'']
        = s # fst (collect rest)) \<and>
   is_start (asc ''@STARTUML'')"
proof -
  have u: "iter_units latin1_db 1 (splitlines doc_upper_end) =
     [(asc ''diagram_01'',
       [asc ''@startuml'', asc ''A->B'', asc ''@ENDUML'', asc ''C->D'', asc ''@enduml''])]"
    by (simp add: doc_upper_end_def eval_defs)
  note t = end_directive_is_case_sensitive [of "asc ''@startuml''" "[]" "asc ''diagram_01''"
      "[asc ''@startuml'', asc ''A->B'', asc ''@ENDUML'', asc ''C->D'', asc ''@enduml'']"
      latin1_db 1 "splitlines doc_upper_end"]
  have m: "(asc ''diagram_01'',
       [asc ''@startuml'', asc ''A->B'', asc ''@ENDUML'', asc ''C->D'', asc ''@enduml''])
       \<in> set (iter_units latin1_db 1 (splitlines doc_upper_end))"
    by (simp only: u) simp
  have s: "is_start (asc ''@startuml'')"
    by (simp add: eval_defs)
  have "map ascii_upper (asc ''@startuml'') = asc ''@STARTUML''"
    by (simp add: asc_def ascii_upper_def)
  with t s have "is_start (asc ''@STARTUML'')" by metis
  with t m u show ?thesis by blast
qed

section \<open>The encoder's payload\<close>

lemmas deflate_defs = deflate_literals_def fixed_literal_code_def adler32_def be32_def
  bits8_def byte_of_bits_def

lemma enc6_in_alphabet: "enc6 b \<in> set ALPHABET"
proof -
  have "0 \<le> b AND 63" by simp
  moreover have "b AND 63 \<le> 63" by (rule AND_upper2) simp
  moreover have "length ALPHABET = 64"
    by (simp add: ALPHABET_def asc_def)
  ultimately have "nat (b AND 63) < length ALPHABET"
    by linarith
  then show ?thesis unfolding enc6_def by (rule nth_mem)
qed

lemma encode_bytes_alphabet: "set (encode_bytes data) \<subseteq> set ALPHABET"
  by (induction data rule: encode_bytes.induct) (auto simp: Let_def enc6_in_alphabet)

lemma encode_bytes_length: "length (encode_bytes data) = 4 * ((length data + 2) div 3)"
  by (induction data rule: encode_bytes.induct) (auto simp: Let_def)

lemma utf8_from_total:
  "\<forall>c\<in>set s. \<not> is_surrogate c \<Longrightarrow> \<exists>bs. utf8_from i s = Inr bs"
proof (induction s arbitrary: i)
  case Nil
  show ?case by simp
next
  case (Cons c cs)
  then obtain bs where "utf8_from (i + 1) cs = Inr bs" by fastforce
  with Cons.prems show ?case by simp
qed

lemma alphabet_set:
  "set ALPHABET = {48..<58} \<union> {65..<91} \<union> {97..<123} \<union> {45, 95}"
proof -
  have e: "ALPHABET = [48..<58] @ [65..<91] @ [97..<123] @ [45, 95]"
    by (simp add: ALPHABET_def asc_def upt_rec)
  show ?thesis unfolding e set_append set_upt by (simp add: Un_assoc)
qed

lemma alphabet_spec: "c \<in> set ALPHABET \<longleftrightarrow> spec_alphabet c"
  by (auto simp: alphabet_set spec_alphabet_def)

lemma encode_a: "plantuml_encode deflate_literals (asc ''a'') = Inr (asc ''ImG0'')"
  by (simp add: plantuml_encode_def utf8_encode_def is_surrogate_def utf8_char_def
      deflate_defs asc_def enc6_def ALPHABET_def)

text \<open>
  Claim C5. Every symbol that \<open>_encode_bytes\<close> produces is one of the 64 symbols
  \<open>0-9A-Za-z-_\<close>, whatever the bytes; so is every symbol of a payload of
  \<open>plantuml_encode\<close>, whatever the compressor returns. The encoder produces a payload for
  every text without a lone surrogate (the only texts \<open>str.encode\<close> rejects). The
  alphabet of the source has 64 distinct symbols, the set of the specification.
\<close>

theorem payload_symbols_in_alphabet:
  "(\<forall>c\<in>set (encode_bytes data). spec_alphabet c) \<and>
   (\<forall>p. plantuml_encode Z tx = Inr p \<longrightarrow> (\<forall>c\<in>set p. spec_alphabet c)) \<and>
   ((\<forall>c\<in>set tx. \<not> is_surrogate c) \<longrightarrow> (\<exists>p. plantuml_encode Z tx = Inr p)) \<and>
   length ALPHABET = 64 \<and> distinct ALPHABET \<and>
   (\<forall>c. c \<in> set ALPHABET \<longleftrightarrow> spec_alphabet c)"
proof -
  have a: "\<forall>c\<in>set (encode_bytes d). spec_alphabet c" for d
    using encode_bytes_alphabet [of d] alphabet_spec by blast
  have b: "\<forall>p. plantuml_encode Z tx = Inr p \<longrightarrow> (\<forall>c\<in>set p. spec_alphabet c)"
    using a by (auto simp: plantuml_encode_def Let_def split: sum.splits)
  have c: "(\<forall>c\<in>set tx. \<not> is_surrogate c) \<longrightarrow> (\<exists>p. plantuml_encode Z tx = Inr p)"
    using utf8_from_total [of tx 0]
    by (auto simp: plantuml_encode_def utf8_encode_def Let_def)
  have d: "length ALPHABET = 64"
    by (simp add: ALPHABET_def asc_def)
  have e: "distinct ALPHABET"
    by (simp add: ALPHABET_def asc_def)
  from a [of data] b c d e alphabet_spec show ?thesis by blast
qed

text \<open>The text \<open>a\<close> has the payload \<open>ImG0\<close>, four symbols of the alphabet.\<close>

theorem payload_symbols_in_alphabet_witness:
  "plantuml_encode deflate_literals (asc ''a'') = Inr (asc ''ImG0'') \<and>
   list_all spec_alphabet (asc ''ImG0'') \<and>
   list_all (\<lambda>c. \<not> is_surrogate c) (asc ''a'')"
proof -
  have "\<forall>c\<in>set (asc ''a''). \<not> is_surrogate c"
    by (simp add: asc_def is_surrogate_def)
  with payload_symbols_in_alphabet [of "[]" deflate_literals "asc ''a''"] encode_a
  show ?thesis unfolding list_all_iff by blast
qed

text \<open>
  Claim C9, as amended. The payload is not as long as the text. \<open>_encode_bytes\<close> gives 4
  symbols for every 3 bytes, the last group filled up: \<open>4 * ceil(n / 3)\<close> symbols for
  \<open>n\<close> bytes. The payload of a text therefore has \<open>4 * ceil(m / 3)\<close> symbols, \<open>m\<close> being the
  length of the compressed UTF-8 bytes of the text less the 2 bytes of the header and the
  4 of the checksum; its length is a multiple of 4.
\<close>

theorem payload_length_from_compressed_bytes:
  "length (encode_bytes data) = 4 * ((length data + 2) div 3) \<and>
   (utf8_encode tx = Inr raw \<longrightarrow>
      (\<exists>p. plantuml_encode Z tx = Inr p \<and>
           length p = 4 * ((length (Z raw) - 6 + 2) div 3)))"
proof -
  have a: "length (encode_bytes data) = 4 * ((length data + 2) div 3)"
    by (rule encode_bytes_length)
  have b: "\<exists>p. plantuml_encode Z tx = Inr p \<and> length p = 4 * ((length (Z raw) - 6 + 2) div 3)"
    if u: "utf8_encode tx = Inr raw"
  proof -
    let ?body = "drop 2 (take (length (Z raw) - 4) (Z raw))"
    have "plantuml_encode Z tx = Inr (encode_bytes ?body)"
      using u by (simp add: plantuml_encode_def Let_def)
    moreover have "length ?body = length (Z raw) - 6"
      by simp
    ultimately show ?thesis
      using encode_bytes_length [of ?body] by simp
  qed
  from a b show ?thesis by blast
qed

text \<open>The text \<open>a\<close>: one byte, nine bytes compressed, a payload of four symbols.\<close>

theorem payload_length_from_compressed_bytes_witness:
  "utf8_encode (asc ''a'') = Inr [0x61] \<and>
   length (deflate_literals [0x61]) = 9 \<and>
   (\<exists>p. plantuml_encode deflate_literals (asc ''a'') = Inr p \<and> length p = 4)"
proof -
  have u: "utf8_encode (asc ''a'') = Inr [0x61]"
    by (simp add: utf8_encode_def asc_def is_surrogate_def utf8_char_def)
  have l: "length (deflate_literals [0x61]) = 9"
    by (simp add: deflate_defs)
  from payload_length_from_compressed_bytes [of "[]" "asc ''a''" "[0x61]" deflate_literals] u l
  show ?thesis by simp
qed

text \<open>The text \<open>a\<close> of one character has the payload \<open>ImG0\<close> of four.\<close>

theorem payload_length_counterexample:
  "plantuml_encode deflate_literals (asc ''a'') = Inr (asc ''ImG0'') \<and>
   length (asc ''ImG0'') \<noteq> length (asc ''a'')"
  using encode_a by (simp add: asc_def)

section \<open>The transport\<close>

lemmas sim_eval = sim_env_def sim_http_def fresh_def requests_send_def post_request_def
  get_request_def world_fallback_def world_post_down_def

lemma upper_POST: "upper U (asc ''POST'') = asc ''POST''"
  by (simp add: upper_def asc_def ascii_upper_def)

lemma upper_GET: "upper U (asc ''GET'') = asc ''GET''"
  by (simp add: upper_def asc_def ascii_upper_def)

lemma upper_AUTO: "upper U (asc ''AUTO'') = asc ''AUTO''"
  by (simp add: upper_def asc_def ascii_upper_def)

lemma asc_neq: "asc ''GET'' \<noteq> asc ''POST''" "asc ''AUTO'' \<noteq> asc ''POST''" "asc ''AUTO'' \<noteq> asc ''GET''"
  by (simp_all add: asc_def)

lemma attempted_send:
  "requests_send E rq s = (r, s1) \<Longrightarrow> attempted s1 = attempted s @ [rq] \<and> written s1 = written s"
  by (auto simp: requests_send_def split: prod.splits)

lemma export_png_POST:
  "utf8_encode diagram = Inr data \<Longrightarrow> requests_send E (post_request base data) s = (Inr r, s1) \<Longrightarrow>
     export_png E diagram base (asc ''POST'') s =
       (if is_png r then Inr (content r)
        else Inl (RuntimeError (asc ''Server did not return PNG on POST.'')), s1)"
  by (simp add: export_png_def export_post_def upper_POST)

lemma export_png_GET:
  "plantuml_encode (zlib_compress E) diagram = Inr code \<Longrightarrow>
   requests_send E (get_request base code) s = (Inr r, s1) \<Longrightarrow>
     export_png E diagram base (asc ''GET'') s =
       (if is_png r then Inr (content r)
        else Inl (RuntimeError (asc ''GET failed: HTTP '' @ decimal (status_code r))), s1)"
  by (simp add: export_png_def export_get_def upper_GET asc_neq)

lemma is_png_magic: "is_png r \<longleftrightarrow> take 8 (content r) = PNG_MAGIC"
proof -
  have "prefix xs ys \<longleftrightarrow> take (length xs) ys = xs" for xs ys :: bytes
    by (metis append_eq_conv_conj append_take_drop_id prefix_def)
  moreover have "length PNG_MAGIC = 8"
    by (simp add: PNG_MAGIC_def)
  ultimately show ?thesis
    unfolding is_png_def by metis
qed

lemma export_get_png:
  "export_get E diagram base s = (Inr img, s1) \<Longrightarrow> prefix PNG_MAGIC img"
  by (auto simp: export_get_def is_png_def split: sum.splits prod.splits if_splits)

lemma export_png_AUTO_post_response:
  assumes "utf8_encode diagram = Inr data"
    and "requests_send E (post_request base data) s = (Inr r, s1)"
  shows "fst (export_png E diagram base (asc ''AUTO'') s) = Inr (content r) \<longleftrightarrow> is_png r"
proof (cases "is_png r")
  case True
  then have "content r \<noteq> []" by (auto simp: is_png_def PNG_MAGIC_def)
  with True assms show ?thesis
    by (simp add: export_png_def export_post_def upper_AUTO asc_neq)
next
  case False
  with assms have e: "export_png E diagram base (asc ''AUTO'') s = export_get E diagram base s1"
    by (simp add: export_png_def export_post_def upper_AUTO asc_neq)
  have "fst (export_get E diagram base s1) \<noteq> Inr (content r)"
  proof
    assume "fst (export_get E diagram base s1) = Inr (content r)"
    then obtain s2 where "export_get E diagram base s1 = (Inr (content r), s2)"
      by (cases "export_get E diagram base s1") auto
    from export_get_png [OF this] False show False by (simp add: is_png_def)
  qed
  with e False show ?thesis by simp
qed

lemma utf8_a: "utf8_encode (asc ''a'') = Inr [0x61]"
  by (simp add: utf8_encode_def asc_def is_surrogate_def utf8_char_def)

lemma send_post_page:
  "requests_send sim_env (post_request (asc ''http://h'') [0x61])
      (fresh \<lparr>post_replies = [Inr page_200], get_replies = [], clock = 0\<rparr>)
    = (Inr page_200,
       \<lparr>world = \<lparr>post_replies = [], get_replies = [], clock = 0\<rparr>,
        attempted = [post_request (asc ''http://h'') [0x61]], written = []\<rparr>)"
  by (simp add: sim_env_def sim_http_def fresh_def requests_send_def post_request_def)

lemma send_get_image:
  "requests_send sim_env (get_request (asc ''http://h'') (asc ''ImG0''))
      (fresh \<lparr>post_replies = [], get_replies = [Inr image_500], clock = 0\<rparr>)
    = (Inr image_500,
       \<lparr>world = \<lparr>post_replies = [], get_replies = [], clock = 0\<rparr>,
        attempted = [get_request (asc ''http://h'') (asc ''ImG0'')], written = []\<rparr>)"
  by (simp add: sim_env_def sim_http_def fresh_def requests_send_def get_request_def)

lemma is_png_examples: "\<not> is_png page_200" "is_png image_500"
  by (simp_all add: is_png_def page_200_def image_500_def png_image_def error_page_def PNG_MAGIC_def)

lemma export_png_AUTO:
  assumes "utf8_encode diagram = Inr data"
    and "plantuml_encode (zlib_compress E) diagram = Inr code"
    and "requests_send E (post_request base data) s = (p, s1)"
    and "requests_send E (get_request base code) s1 = (g, s2)"
  shows "export_png E diagram base (asc ''AUTO'') s =
     (case p of
        Inl e \<Rightarrow> (Inl e, s1)
      | Inr r1 \<Rightarrow>
          if is_png r1 then (Inr (content r1), s1)
          else (case g of
                  Inl e \<Rightarrow> (Inl e, s2)
                | Inr r2 \<Rightarrow>
                    if is_png r2 then (Inr (content r2), s2)
                    else (Inl (RuntimeError (asc ''GET failed: HTTP '' @ decimal (status_code r2))),
                          s2)))"
proof (cases p)
  case (Inl e)
  with assms show ?thesis
    by (simp add: export_png_def export_post_def upper_AUTO asc_neq)
next
  case (Inr r1)
  show ?thesis
  proof (cases "is_png r1")
    case True
    then have "content r1 \<noteq> []" by (auto simp: is_png_def PNG_MAGIC_def)
    with True Inr assms show ?thesis
      by (simp add: export_png_def export_post_def upper_AUTO asc_neq)
  next
    case False
    with Inr assms show ?thesis
      by (simp add: export_png_def export_post_def export_get_def upper_AUTO asc_neq
          split: sum.splits)
  qed
qed

text \<open>
  Claim C2. Under the method \<open>POST\<close> and under the method \<open>GET\<close> the export of a diagram
  whose request is answered by the response \<open>r\<close> returns the body of \<open>r\<close> when the body
  begins with the eight bytes \<open>89 50 4E 47 0D 0A 1A 0A\<close>, and fails otherwise (with the
  message for POST, with the status code in the message for GET). Under \<open>AUTO\<close> the
  export returns the body of the response to the POST exactly when that body begins with
  these bytes. The test reads the body only: changing the status code of a response
  does not change it.
\<close>

theorem png_magic_decides_success:
  "(utf8_encode diagram = Inr data \<longrightarrow>
    requests_send E (post_request base data) s = (Inr r, s1) \<longrightarrow>
      export_png E diagram base (asc ''POST'') s =
        (if is_png r then Inr (content r)
         else Inl (RuntimeError (asc ''Server did not return PNG on POST.'')), s1) \<and>
      (fst (export_png E diagram base (asc ''AUTO'') s) = Inr (content r) \<longleftrightarrow> is_png r)) \<and>
   (plantuml_encode (zlib_compress E) diagram = Inr code \<longrightarrow>
    requests_send E (get_request base code) s = (Inr r, s1) \<longrightarrow>
      export_png E diagram base (asc ''GET'') s =
        (if is_png r then Inr (content r)
         else Inl (RuntimeError (asc ''GET failed: HTTP '' @ decimal (status_code r))), s1)) \<and>
   (is_png r \<longleftrightarrow> take 8 (content r) = PNG_MAGIC) \<and>
   PNG_MAGIC = [0x89, 0x50, 0x4E, 0x47, 0x0D, 0x0A, 0x1A, 0x0A] \<and>
   is_png (r\<lparr>status_code := n\<rparr>) = is_png r"
proof -
  have "PNG_MAGIC = [0x89, 0x50, 0x4E, 0x47, 0x0D, 0x0A, 0x1A, 0x0A]"
    by (simp add: PNG_MAGIC_def)
  moreover have "is_png (r\<lparr>status_code := n\<rparr>) = is_png r"
    by (simp add: is_png_def)
  ultimately show ?thesis
    using export_png_POST [of diagram data E base s r s1]
      export_png_GET [of E diagram code base s r s1]
      export_png_AUTO_post_response [of diagram data E base s r s1]
      is_png_magic [of r]
    by blast
qed

text \<open>A page with status 200 is a failure and an image with status 500 a success.\<close>

theorem png_magic_decides_success_witness:
  "fst (export_png sim_env (asc ''a'') (asc ''http://h'') (asc ''POST'')
      (fresh \<lparr>post_replies = [Inr page_200], get_replies = [], clock = 0\<rparr>))
     = Inl (RuntimeError (asc ''Server did not return PNG on POST.'')) \<and>
   fst (export_png sim_env (asc ''a'') (asc ''http://h'') (asc ''GET'')
      (fresh \<lparr>post_replies = [], get_replies = [Inr image_500], clock = 0\<rparr>))
     = Inr png_image \<and>
   status_code page_200 = 200 \<and> status_code image_500 = 500"
proof -
  have z: "plantuml_encode (zlib_compress sim_env) (asc ''a'') = Inr (asc ''ImG0'')"
    using encode_a by (simp add: sim_env_def)
  from png_magic_decides_success [of "asc ''a''" "[0x61]" sim_env "asc ''http://h''"
      "fresh \<lparr>post_replies = [Inr page_200], get_replies = [], clock = 0\<rparr>" page_200
      "\<lparr>world = \<lparr>post_replies = [], get_replies = [], clock = 0\<rparr>,
        attempted = [post_request (asc ''http://h'') [0x61]], written = []\<rparr>" "asc ''ImG0''" 0]
    utf8_a send_post_page is_png_examples(1)
  have a: "fst (export_png sim_env (asc ''a'') (asc ''http://h'') (asc ''POST'')
      (fresh \<lparr>post_replies = [Inr page_200], get_replies = [], clock = 0\<rparr>))
     = Inl (RuntimeError (asc ''Server did not return PNG on POST.''))"
    by simp
  from png_magic_decides_success [of "asc ''a''" "[0x61]" sim_env "asc ''http://h''"
      "fresh \<lparr>post_replies = [], get_replies = [Inr image_500], clock = 0\<rparr>" image_500
      "\<lparr>world = \<lparr>post_replies = [], get_replies = [], clock = 0\<rparr>,
        attempted = [get_request (asc ''http://h'') (asc ''ImG0'')], written = []\<rparr>" "asc ''ImG0''" 0]
    z send_get_image is_png_examples(2)
  have b: "fst (export_png sim_env (asc ''a'') (asc ''http://h'') (asc ''GET'')
      (fresh \<lparr>post_replies = [], get_replies = [Inr image_500], clock = 0\<rparr>))
     = Inr png_image"
    by (simp add: image_500_def)
  from a b show ?thesis by (simp add: page_200_def image_500_def)
qed

text \<open>
  Claim C1, as amended. Under \<open>AUTO\<close> the POST is attempted first. When the POST is
  answered by a PNG image the export returns it and no GET is attempted. When the POST
  is answered by a response that is not a PNG image the GET is attempted and its
  outcome is the outcome of the export: the image of the GET, or the failure of the GET
  - \<open>GET failed: HTTP\<close> and the status code of the response to the GET, or the
  exception the GET request raised. When the POST request itself raises, the export
  fails with that exception and no GET is attempted. Here \<open>s1\<close> is the state after the
  POST and \<open>s2\<close> the state after a GET that follows it.
\<close>

theorem auto_falls_back_on_non_image:
  "utf8_encode diagram = Inr data \<longrightarrow>
   plantuml_encode (zlib_compress E) diagram = Inr code \<longrightarrow>
   requests_send E (post_request base data) s = (p, s1) \<longrightarrow>
   requests_send E (get_request base code) s1 = (g, s2) \<longrightarrow>
     export_png E diagram base (asc ''AUTO'') s =
       (case p of
          Inl e \<Rightarrow> (Inl e, s1)
        | Inr r1 \<Rightarrow>
            if is_png r1 then (Inr (content r1), s1)
            else (case g of
                    Inl e \<Rightarrow> (Inl e, s2)
                  | Inr r2 \<Rightarrow>
                      if is_png r2 then (Inr (content r2), s2)
                      else (Inl (RuntimeError
                                   (asc ''GET failed: HTTP '' @ decimal (status_code r2))),
                            s2))) \<and>
     attempted s1 = attempted s @ [post_request base data] \<and>
     attempted s2 = attempted s @ [post_request base data, get_request base code]"
  using export_png_AUTO [of diagram data E code base s p s1 g s2]
    attempted_send [of E "post_request base data" s p s1]
    attempted_send [of E "get_request base code" s1 g s2]
  by simp

text \<open>The POST is answered by an error page and the GET by an image: the export returns
  the image of the GET after the two requests.\<close>

theorem auto_falls_back_on_non_image_witness:
  "fst (export_png sim_env (asc ''a'') (asc ''http://h'') (asc ''AUTO'') (fresh world_fallback))
     = Inr png_image \<and>
   attempted (snd (export_png sim_env (asc ''a'') (asc ''http://h'') (asc ''AUTO'')
       (fresh world_fallback)))
     = [post_request (asc ''http://h'') [0x61], get_request (asc ''http://h'') (asc ''ImG0'')]"
proof -
  let ?s1 = "\<lparr>world = \<lparr>post_replies = [], get_replies = [Inr image_200], clock = 0\<rparr>,
      attempted = [post_request (asc ''http://h'') [0x61]], written = []\<rparr>"
  let ?s2 = "\<lparr>world = \<lparr>post_replies = [], get_replies = [], clock = 0\<rparr>,
      attempted = [post_request (asc ''http://h'') [0x61],
                   get_request (asc ''http://h'') (asc ''ImG0'')], written = []\<rparr>"
  have z: "plantuml_encode (zlib_compress sim_env) (asc ''a'') = Inr (asc ''ImG0'')"
    using encode_a by (simp add: sim_env_def)
  have p: "requests_send sim_env (post_request (asc ''http://h'') [0x61]) (fresh world_fallback)
      = (Inr page_200, ?s1)"
    by (simp add: sim_eval)
  have g: "requests_send sim_env (get_request (asc ''http://h'') (asc ''ImG0'')) ?s1
      = (Inr image_200, ?s2)"
    by (simp add: sim_eval)
  have i: "\<not> is_png page_200" "is_png image_200"
    by (simp_all add: is_png_def page_200_def image_200_def png_image_def error_page_def
        PNG_MAGIC_def)
  from auto_falls_back_on_non_image [of "asc ''a''" "[0x61]" sim_env "asc ''ImG0''" "asc ''http://h''"
      "fresh world_fallback" "Inr page_200" ?s1 "Inr image_200" ?s2] utf8_a z p g i
  show ?thesis by (simp add: image_200_def)
qed

text \<open>The POST fails at the connection while the server would answer the GET with an
  image: the export fails with the exception of the POST after one request.\<close>

theorem auto_post_exception_counterexample:
  "export_png sim_env (asc ''a'') (asc ''http://h'') (asc ''AUTO'') (fresh world_post_down)
     = (Inl (RequestException (asc ''connection refused'')),
        \<lparr>world = world_post_down, attempted = [post_request (asc ''http://h'') [0x61]],
         written = []\<rparr>) \<and>
   fst (export_png sim_env (asc ''a'') (asc ''http://h'') (asc ''GET'') (fresh world_post_down))
     = Inr png_image"
proof -
  have z: "plantuml_encode deflate_literals (asc ''a'') = Inr (asc ''ImG0'')"
    by (rule encode_a)
  have i: "is_png image_200"
    by (simp add: is_png_def image_200_def png_image_def PNG_MAGIC_def)
  show ?thesis
    using z i utf8_a
    by (simp add: export_png_def export_post_def export_get_def upper_AUTO upper_GET asc_neq
        sim_eval image_200_def)
qed

section \<open>The batch run\<close>

lemma written_send:
  "requests_send E rq s = (r, s1) \<Longrightarrow> written s1 = written s"
  by (auto simp: requests_send_def split: prod.splits)

lemma written_export_post: "export_post E d base s = (r, s1) \<Longrightarrow> written s1 = written s"
  by (auto simp: export_post_def split: sum.splits prod.splits dest: written_send)

lemma written_export_get: "export_get E d base s = (r, s1) \<Longrightarrow> written s1 = written s"
  by (auto simp: export_get_def split: sum.splits prod.splits if_splits dest: written_send)

lemma written_export_png: "export_png E d base m s = (r, s1) \<Longrightarrow> written s1 = written s"
proof -
  assume a: "export_png E d base m s = (r, s1)"
  obtain p sp where p: "export_post E d base s = (p, sp)"
    by (cases "export_post E d base s")
  obtain g sg where g: "export_get E d base sp = (g, sg)"
    by (cases "export_get E d base sp")
  obtain g0 sg0 where g0: "export_get E d base s = (g0, sg0)"
    by (cases "export_get E d base s")
  note wp = written_export_post [OF p]
  note wg = written_export_get [OF g]
  note wg0 = written_export_get [OF g0]
  from a p g g0 have "s1 = sp \<or> s1 = sg \<or> s1 = sg0"
    by (auto simp: export_png_def split: sum.splits option.splits if_splits)
  with wp wg wg0 show ?thesis by auto
qed

lemma written_write_png:
  "write_png E path img s = (r, s1) \<Longrightarrow>
     map fst (written s1) = map fst (written s) @ (case r of None \<Rightarrow> [path] | Some e \<Rightarrow> [])"
  by (cases "write_file E path img (world s)")
     (auto simp: write_png_def split: option.splits)

lemma written_export_one:
  "export_one E base m out_dir unit s = (r, s1) \<Longrightarrow>
     map fst (written s1) =
       map fst (written s) @ (case r of None \<Rightarrow> [path_join out_dir (fst unit @ asc ''.png'')] | Some e \<Rightarrow> [])"
proof -
  assume a: "export_one E base m out_dir unit s = (r, s1)"
  obtain x sx where x: "export_png E (snd unit) base m s = (x, sx)"
    by (cases "export_png E (snd unit) base m s")
  note wx = written_export_png [OF x]
  show ?thesis
  proof (cases x)
    case (Inl e)
    with a x wx show ?thesis by (auto simp: export_one_def)
  next
    case (Inr img)
    with a x have "write_png E (path_join out_dir (fst unit @ asc ''.png'')) img sx = (r, s1)"
      by (simp add: export_one_def)
    from written_write_png [OF this] wx show ?thesis by simp
  qed
qed

lemma outcomes_Cons:
  "export_one E base m out_dir unit s = (r, s1) \<Longrightarrow>
     outcomes E base m out_dir (unit # units) s = r # outcomes E base m out_dir units s1"
  by simp

lemma export_units_general:
  "export_units E base m out_dir units c s = (c1, s1) \<Longrightarrow>
     length (outcomes E base m out_dir units s) = length units \<and>
     ok c1 = ok c + length (filter (\<lambda>r. r = None) (outcomes E base m out_dir units s)) \<and>
     fail c1 = fail c + length (filter (\<lambda>r. r \<noteq> None) (outcomes E base m out_dir units s)) \<and>
     failures c1 = failures c @ recorded_failures units (outcomes E base m out_dir units s) \<and>
     map fst (written s1) =
       map fst (written s) @ written_paths out_dir units (outcomes E base m out_dir units s)"
proof (induction units arbitrary: c s)
  case Nil
  then show ?case by (simp add: recorded_failures_def written_paths_def)
next
  case (Cons unit units)
  obtain r s' where one: "export_one E base m out_dir unit s = (r, s')"
    by (cases "export_one E base m out_dir unit s")
  note w = written_export_one [OF one]
  note o = outcomes_Cons [OF one, of units]
  show ?case
  proof (cases r)
    case None
    with Cons.prems one
    have "export_units E base m out_dir units (c\<lparr>ok := ok c + 1\<rparr>) s' = (c1, s1)" by simp
    from Cons.IH [OF this] None w show ?thesis
      unfolding o by (simp add: recorded_failures_def written_paths_def)
  next
    case (Some e)
    with Cons.prems one
    have "export_units E base m out_dir units
            (c\<lparr>fail := fail c + 1, failures := failures c @ [(fst unit, exn_str e)]\<rparr>) s' = (c1, s1)"
      by simp
    from Cons.IH [OF this] Some w show ?thesis
      unfolding o by (simp add: recorded_failures_def written_paths_def)
  qed
qed

lemma not_word_slash: "\<not> is_word U 47"
  by (simp add: is_word_def)

lemma sanitize_no_slash: "47 \<notin> set (sanitize U raw)"
proof
  assume "47 \<in> set (sanitize U raw)"
  then obtain c where c: "c \<in> set raw"
    and e: "47 = (if is_word U c \<or> c = 45 \<or> c = 95 \<or> c = 46 then c else 95)"
    unfolding sanitize_def by auto
  from e have "c = 47 \<and> (is_word U c \<or> c = 45 \<or> c = 95 \<or> c = 46)"
    by (simp split: if_splits)
  then show False using not_word_slash [of U] by auto
qed

lemma iter_units_no_slash: "u \<in> set (iter_units U c ls) \<Longrightarrow> 47 \<notin> set (fst u)"
proof (induction U c ls rule: iter_units.induct)
  case (1 U c)
  then show ?case by simp
next
  case (2 U c l ls)
  show ?case
  proof (cases "START_RE_match (strip l)")
    case NoMatch
    with 2 show ?thesis by simp
  next
    case (Match g)
    with 2(3) have "u = (sanitize U (raw_name c g), l # fst (collect ls)) \<or>
        u \<in> set (iter_units U (c + 1) (snd (collect ls)))" by simp
    then show ?thesis
    proof
      assume "u = (sanitize U (raw_name c g), l # fst (collect ls))"
      then show ?thesis using sanitize_no_slash [of U "raw_name c g"] by simp
    next
      assume "u \<in> set (iter_units U (c + 1) (snd (collect ls)))"
      with 2(2) [OF Match] show ?thesis by simp
    qed
  qed
qed

lemma iter_diagrams_no_slash: "u \<in> set (iter_diagrams U doc) \<Longrightarrow> 47 \<notin> set (fst u)"
  by (auto simp: iter_diagrams_def dest: iter_units_no_slash)

lemma hd_png: "47 \<notin> set x \<Longrightarrow> hd (x @ asc ''.png'') \<noteq> 47"
  by (cases x) (auto simp: asc_def)

lemma path_join_plain:
  "47 \<notin> set n \<Longrightarrow>
     path_join out_dir (n @ asc ''.png'') =
       (if out_dir = [] \<or> last out_dir = 47 then out_dir else out_dir @ [47]) @ n @ asc ''.png''"
  using hd_png [of n] by (simp add: path_join_def)

lemma path_join_inj:
  assumes "47 \<notin> set n" "47 \<notin> set n'"
  shows "path_join out_dir (n @ asc ''.png'') = path_join out_dir (n' @ asc ''.png'') \<longleftrightarrow> n = n'"
  unfolding path_join_plain [OF assms(1)] path_join_plain [OF assms(2)] by simp

lemma run_exports_general:
  assumes "run_exports E source base m out_dir s = ((c, raised), s1)"
  shows "length (outcomes E base m out_dir (iter_diagrams (unicode E) source) s)
           = length (iter_diagrams (unicode E) source)"
    and "ok c = length (filter (\<lambda>r. r = None)
                  (outcomes E base m out_dir (iter_diagrams (unicode E) source) s))"
    and "fail c = length (filter (\<lambda>r. r \<noteq> None)
                  (outcomes E base m out_dir (iter_diagrams (unicode E) source) s))"
    and "failures c = recorded_failures (iter_diagrams (unicode E) source)
                  (outcomes E base m out_dir (iter_diagrams (unicode E) source) s)"
    and "map fst (written s1) = map fst (written s) @
           written_paths out_dir (iter_diagrams (unicode E) source)
             (outcomes E base m out_dir (iter_diagrams (unicode E) source) s)"
    and "raised = (if 0 < fail c then Some 1 else None)"
proof -
  let ?units = "iter_diagrams (unicode E) source"
  from assms have u: "export_units E base m out_dir ?units \<lparr>ok = 0, fail = 0, failures = []\<rparr> s
      = (c, s1)"
    and r: "raised = (if failures c \<noteq> [] \<and> fail c \<noteq> 0 then Some 1 else None)"
    by (auto simp: run_exports_def split: prod.splits)
  note g = export_units_general [OF u]
  from g show "length (outcomes E base m out_dir ?units s) = length ?units" by simp
  from g show "ok c = length (filter (\<lambda>r. r = None) (outcomes E base m out_dir ?units s))"
    by simp
  from g show f: "fail c = length (filter (\<lambda>r. r \<noteq> None) (outcomes E base m out_dir ?units s))"
    by simp
  from g show fs: "failures c = recorded_failures ?units (outcomes E base m out_dir ?units s)"
    by simp
  from g show "map fst (written s1) = map fst (written s) @
      written_paths out_dir ?units (outcomes E base m out_dir ?units s)" by simp
  have "length (recorded_failures us rs) = length (filter (\<lambda>r. r \<noteq> None) rs)"
    if "length rs = length us" for us :: "(str \<times> str) list" and rs
    using that
    by (induction us rs rule: list_induct2') (auto simp: recorded_failures_def)
  with g f fs have "length (failures c) = fail c" by simp
  with r show "raised = (if 0 < fail c then Some 1 else None)" by auto
qed

lemma filter_split:
  "length (filter (\<lambda>r. r = None) rs) + length (filter (\<lambda>r. r \<noteq> None) rs) = length rs"
  by (induction rs) auto

lemma doc_three_units:
  "iter_diagrams latin1_db doc_three =
     [(asc ''A'', asc ''@startuml A\<newline>@enduml\<newline>''),
      (asc ''B'', asc ''@startuml B\<newline>@enduml\<newline>''),
      (asc ''C'', asc ''@startuml C\<newline>@enduml\<newline>'')]"
  by (simp add: doc_three_def eval_defs)

lemma doc_same_name_units:
  "iter_diagrams latin1_db doc_same_name =
     [(asc ''A'', asc ''@startuml A\<newline>@enduml\<newline>''),
      (asc ''B'', asc ''@startuml B\<newline>@enduml\<newline>''),
      (asc ''A'', asc ''@startuml A\<newline>@enduml\<newline>'')]"
  by (simp add: doc_same_name_def eval_defs)

lemma utf8_ascii: "\<forall>c\<in>set s. c < 128 \<Longrightarrow> utf8_from i s = Inr (map of_nat s)"
  by (induction s arbitrary: i) (auto simp: is_surrogate_def utf8_char_def)

lemma utf8_asc: "utf8_encode (asc cs) = Inr (map of_nat (asc cs))" if "\<forall>c\<in>set (asc cs). c < 128"
  using that by (simp add: utf8_encode_def utf8_ascii)

lemma of_char_ascii: "\<not> digit7 c \<Longrightarrow> (of_char c :: nat) < 128"
  by (cases c) (simp add: of_char_def)

lemma list_ascii: "list_all (\<lambda>c. \<not> digit7 c) cs \<Longrightarrow> \<forall>c\<in>set (asc cs). c < 128"
  by (auto simp: asc_def list_all_iff of_char_ascii)

lemma utf8_literal:
  "list_all (\<lambda>c. \<not> digit7 c) cs \<Longrightarrow> utf8_encode (asc cs) = Inr (map of_nat (asc cs))"
  using utf8_ascii [OF list_ascii, of cs 0] by (simp add: utf8_encode_def)

lemma export_one_sim_POST:
  assumes "list_all (\<lambda>c. \<not> digit7 c) cs"
  shows "export_one sim_env base (asc ''POST'') out_dir (name, asc cs)
           \<lparr>world = \<lparr>post_replies = Inr r # rest, get_replies = g, clock = t\<rparr>,
            attempted = a, written = wr\<rparr>
         = (if is_png r
            then (None,
                  \<lparr>world = \<lparr>post_replies = rest, get_replies = g, clock = t\<rparr>,
                   attempted = a @ [post_request base (map of_nat (asc cs))],
                   written = wr @ [(path_join out_dir (name @ asc ''.png''), content r)]\<rparr>)
            else (Some (RuntimeError (asc ''Server did not return PNG on POST.'')),
                  \<lparr>world = \<lparr>post_replies = rest, get_replies = g, clock = t\<rparr>,
                   attempted = a @ [post_request base (map of_nat (asc cs))],
                   written = wr\<rparr>))"
  using utf8_literal [OF assms]
  by (simp add: export_one_def export_png_def export_post_def upper_POST write_png_def
      sim_env_def sim_http_def requests_send_def post_request_def)

lemma is_png_200: "is_png image_200" "\<not> is_png page_200"
  by (simp_all add: is_png_def page_200_def image_200_def png_image_def error_page_def
      PNG_MAGIC_def)

lemma outcomes_three:
  "outcomes sim_env (asc ''http://h'') (asc ''POST'') (asc ''out'')
     (iter_diagrams latin1_db doc_three) (fresh world_second_fails)
   = [None, Some (RuntimeError (asc ''Server did not return PNG on POST.'')), None]"
  unfolding doc_three_units world_second_fails_def fresh_def
  by (simp add: export_one_sim_POST is_png_200)

lemma example_paths:
  "path_join (asc ''out'') (asc ''A'' @ asc ''.png'') = asc ''out/A.png''"
  "path_join (asc ''out'') (asc ''C'' @ asc ''.png'') = asc ''out/C.png''"
  by (simp_all add: path_join_def asc_def)

text \<open>
  Claim C3, as amended. A run attempts every unit of the tokenizer, in its order: there
  is one outcome per unit. \<open>ok\<close> counts the units that did not fail and \<open>fail\<close> those
  that did; the failure list has one entry, the name of the unit and the message of
  its exception, for each unit that failed, in order, and the run goes on after it. The
  files written are those of the units that did not fail, in order. The exit status is
  non-zero exactly when a unit failed. With three units of which only the second
  fails: 2 succeeded and 1 failed, the failure list is the name of the second unit with
  its message, the exit status is 1, and two files are written, first that of the first
  unit and then that of the third. They are two different files exactly when the two
  units have different names; with one name the second write replaces the first file.
\<close>

theorem batch_records_failures_and_goes_on:
  "run_exports E source base m out_dir s = ((c, raised), s1) \<longrightarrow>
     (let units = iter_diagrams (unicode E) source;
          rs = outcomes E base m out_dir units s;
          path = (\<lambda>k. path_join out_dir (fst (units ! k) @ asc ''.png''))
      in length rs = length units \<and>
         ok c = length (filter (\<lambda>r. r = None) rs) \<and>
         fail c = length (filter (\<lambda>r. r \<noteq> None) rs) \<and>
         ok c + fail c = length units \<and>
         failures c = recorded_failures units rs \<and>
         map fst (written s1) = map fst (written s) @ written_paths out_dir units rs \<and>
         (exit_status raised \<noteq> 0 \<longleftrightarrow> 0 < fail c) \<and>
         (length units = 3 \<and> rs = [None, Some e, None] \<longrightarrow>
            ok c = 2 \<and> fail c = 1 \<and> failures c = [(fst (units ! 1), exn_str e)] \<and>
            exit_status raised = 1 \<and>
            map fst (written s1) = map fst (written s) @ [path 0, path 2] \<and>
            (path 0 \<noteq> path 2 \<longleftrightarrow> fst (units ! 0) \<noteq> fst (units ! 2))))"
proof
  assume a: "run_exports E source base m out_dir s = ((c, raised), s1)"
  let ?units = "iter_diagrams (unicode E) source"
  let ?rs = "outcomes E base m out_dir ?units s"
  let ?path = "\<lambda>k. path_join out_dir (fst (?units ! k) @ asc ''.png'')"
  note g = run_exports_general [OF a]
  have sum: "ok c + fail c = length ?units"
    using g(1) g(2) g(3) filter_split [of ?rs] by simp
  have ex: "exit_status raised \<noteq> 0 \<longleftrightarrow> 0 < fail c"
    using g(6) by (simp add: exit_status_def)
  have three: "ok c = 2 \<and> fail c = 1 \<and> failures c = [(fst (?units ! 1), exn_str e)] \<and>
            exit_status raised = 1 \<and>
            map fst (written s1) = map fst (written s) @ [?path 0, ?path 2] \<and>
            (?path 0 \<noteq> ?path 2 \<longleftrightarrow> fst (?units ! 0) \<noteq> fst (?units ! 2))"
    if l: "length ?units = 3" and r: "?rs = [None, Some e, None]"
  proof -
    from l obtain u0 u1 u2 where u: "?units = [u0, u1, u2]"
      by (auto simp: numeral_3_eq_3 length_Suc_conv)
    have "u0 \<in> set ?units" "u2 \<in> set ?units" using u by simp_all
    then have n: "47 \<notin> set (fst u0)" "47 \<notin> set (fst u2)"
      by (auto dest: iter_diagrams_no_slash)
    have inj: "?path 0 \<noteq> ?path 2 \<longleftrightarrow> fst (?units ! 0) \<noteq> fst (?units ! 2)"
      using path_join_inj [OF n, of out_dir] u by simp
    from g(2) r have "ok c = 2" by simp
    moreover from g(3) r have f: "fail c = 1" by simp
    moreover from g(4) r u have "failures c = [(fst (?units ! 1), exn_str e)]"
      by (simp add: recorded_failures_def)
    moreover from g(6) f have "exit_status raised = 1" by (simp add: exit_status_def)
    moreover from g(5) r u have "map fst (written s1) = map fst (written s) @ [?path 0, ?path 2]"
      by (simp add: written_paths_def)
    ultimately show ?thesis using inj by blast
  qed
  from g(1) g(2) g(3) g(4) g(5) sum ex three
  show "let units = iter_diagrams (unicode E) source;
          rs = outcomes E base m out_dir units s;
          path = (\<lambda>k. path_join out_dir (fst (units ! k) @ asc ''.png''))
      in length rs = length units \<and>
         ok c = length (filter (\<lambda>r. r = None) rs) \<and>
         fail c = length (filter (\<lambda>r. r \<noteq> None) rs) \<and>
         ok c + fail c = length units \<and>
         failures c = recorded_failures units rs \<and>
         map fst (written s1) = map fst (written s) @ written_paths out_dir units rs \<and>
         (exit_status raised \<noteq> 0 \<longleftrightarrow> 0 < fail c) \<and>
         (length units = 3 \<and> rs = [None, Some e, None] \<longrightarrow>
            ok c = 2 \<and> fail c = 1 \<and> failures c = [(fst (units ! 1), exn_str e)] \<and>
            exit_status raised = 1 \<and>
            map fst (written s1) = map fst (written s) @ [path 0, path 2] \<and>
            (path 0 \<noteq> path 2 \<longleftrightarrow> fst (units ! 0) \<noteq> fst (units ! 2)))"
    unfolding Let_def by blast
qed

text \<open>Units \<open>A\<close>, \<open>B\<close>, \<open>C\<close>, the second answered by an error page.\<close>

theorem batch_records_failures_and_goes_on_witness:
  "ok (fst (fst (run_exports sim_env doc_three (asc ''http://h'') (asc ''POST'') (asc ''out'')
       (fresh world_second_fails)))) = 2 \<and>
   fail (fst (fst (run_exports sim_env doc_three (asc ''http://h'') (asc ''POST'') (asc ''out'')
       (fresh world_second_fails)))) = 1 \<and>
   failures (fst (fst (run_exports sim_env doc_three (asc ''http://h'') (asc ''POST'') (asc ''out'')
       (fresh world_second_fails))))
     = [(asc ''B'', asc ''Server did not return PNG on POST.'')] \<and>
   exit_status (snd (fst (run_exports sim_env doc_three (asc ''http://h'') (asc ''POST'')
       (asc ''out'') (fresh world_second_fails)))) = 1 \<and>
   map fst (written (snd (run_exports sim_env doc_three (asc ''http://h'') (asc ''POST'')
       (asc ''out'') (fresh world_second_fails))))
     = [asc ''out/A.png'', asc ''out/C.png'']"
proof -
  let ?R = "run_exports sim_env doc_three (asc ''http://h'') (asc ''POST'') (asc ''out'')
       (fresh world_second_fails)"
  have R: "?R = ((fst (fst ?R), snd (fst ?R)), snd ?R)" by simp
  have u: "unicode sim_env = latin1_db" by (simp add: sim_env_def)
  have l: "length (iter_diagrams latin1_db doc_three) = 3" by (simp add: doc_three_units)
  have w: "written (fresh world_second_fails) = []" by (simp add: fresh_def)
  note t = batch_records_failures_and_goes_on [of sim_env doc_three "asc ''http://h''" "asc ''POST''" "asc ''out''"
      "fresh world_second_fails" "fst (fst ?R)" "snd (fst ?R)" "snd ?R"
      "RuntimeError (asc ''Server did not return PNG on POST.'')", unfolded Let_def u]
  from t R l outcomes_three
  have "ok (fst (fst ?R)) = 2 \<and> fail (fst (fst ?R)) = 1 \<and>
    failures (fst (fst ?R)) = [(fst (iter_diagrams latin1_db doc_three ! 1),
        exn_str (RuntimeError (asc ''Server did not return PNG on POST.'')))] \<and>
    exit_status (snd (fst ?R)) = 1 \<and>
    map fst (written (snd ?R)) = map fst (written (fresh world_second_fails)) @
      [path_join (asc ''out'') (fst (iter_diagrams latin1_db doc_three ! 0) @ asc ''.png''),
       path_join (asc ''out'') (fst (iter_diagrams latin1_db doc_three ! 2) @ asc ''.png'')]"
    by blast
  then show ?thesis
    unfolding doc_three_units w by (simp add: exn_str_def example_paths)
qed

text \<open>Units \<open>A\<close>, \<open>B\<close>, \<open>A\<close>, the second answered by an error page: both images are
  written to \<open>out/A.png\<close>, and the run leaves one file.\<close>

theorem batch_same_name_counterexample:
  "written (snd (run_exports sim_env doc_same_name (asc ''http://h'') (asc ''POST'') (asc ''out'')
       (fresh world_second_fails)))
     = [(asc ''out/A.png'', png_image), (asc ''out/A.png'', png_image)] \<and>
   length (remdups [asc ''out/A.png'', asc ''out/A.png'']) = 1"
proof -
  have u: "unicode sim_env = latin1_db" by (simp add: sim_env_def)
  have c: "content image_200 = png_image" by (simp add: image_200_def)
  have "written (snd (run_exports sim_env doc_same_name (asc ''http://h'') (asc ''POST'')
       (asc ''out'') (fresh world_second_fails)))
     = [(asc ''out/A.png'', png_image), (asc ''out/A.png'', png_image)]"
    unfolding run_exports_def u doc_same_name_units world_second_fails_def fresh_def
    by (simp add: export_one_sim_POST is_png_200 example_paths c)
  then show ?thesis by simp
qed

section \<open>The readiness probe\<close>

lemma wait_loop_ready:
  assumes "time_time E (world s) = (t, w)" and "t - t0 < timeout"
    and "requests_send E (probe_request u) (s\<lparr>world := w\<rparr>) = (Inr resp, s1)"
    and "status_code resp = 200 \<or> status_code resp = 400"
  shows "wait_loop E u t0 timeout s = Some (Inr (), s1)"
  using assms by (subst wait_loop.simps) auto

lemma wait_loop_retry:
  assumes "time_time E (world s) = (t, w)" and "t - t0 < timeout"
    and "requests_send E (probe_request u) (s\<lparr>world := w\<rparr>) = (Inl (RequestException m), s1)"
  shows "wait_loop E u t0 timeout s =
           wait_loop E u t0 timeout (s1\<lparr>world := time_sleep E 1.5 (world s1)\<rparr>)"
  using assms by (subst wait_loop.simps) (simp add: is_RequestException_def)

lemma wait_loop_timeout:
  assumes "time_time E (world s) = (t, w)" and "\<not> t - t0 < timeout"
  shows "wait_loop E u t0 timeout s =
           Some (Inl (RuntimeError (asc ''Timed out waiting for local PlantUML server to start.'')),
                 s\<lparr>world := w\<rparr>)"
  using assms by (subst wait_loop.simps) simp

lemma wait_for_server_loop:
  assumes "plantuml_encode (zlib_compress E) (asc ''@startuml\<newline>@enduml\<newline>'') = Inr code"
    and "time_time E (world s) = (t0, w)"
  shows "wait_for_server E port timeout s =
           wait_loop E (asc ''http://localhost:'' @ decimal port @ asc ''/png/'' @ code)
             t0 timeout (s\<lparr>world := w\<rparr>)"
  using assms by (simp add: wait_for_server_def)

text \<open>
  Claim C8. \<open>_wait_for_server\<close> runs its loop on the GET of the empty diagram. In a
  round of the loop that the timeout allows, one probe is attempted. When the probe is
  answered with status 200 or with status 400 the loop returns at once, the server
  being up: the state is the one the probe left, with no sleep and no further request.
  When the probe raises an exception of the \<open>requests\<close> library (a failed connection,
  a timeout) the loop sleeps 1.5 seconds and goes round again.
\<close>

theorem probe_status_ends_polling:
  "(plantuml_encode (zlib_compress E) (asc ''@startuml\<newline>@enduml\<newline>'') = Inr code \<longrightarrow>
    time_time E (world s) = (t, w) \<longrightarrow>
      wait_for_server E port timeout s =
        wait_loop E (asc ''http://localhost:'' @ decimal port @ asc ''/png/'' @ code)
          t timeout (s\<lparr>world := w\<rparr>)) \<and>
   (time_time E (world s) = (t, w) \<longrightarrow> t - t0 < timeout \<longrightarrow>
    requests_send E (probe_request u) (s\<lparr>world := w\<rparr>) = (r, s1) \<longrightarrow>
      attempted s1 = attempted s @ [probe_request u] \<and>
      (\<forall>resp. r = Inr resp \<and> (status_code resp = 200 \<or> status_code resp = 400) \<longrightarrow>
         wait_loop E u t0 timeout s = Some (Inr (), s1)) \<and>
      (\<forall>m. r = Inl (RequestException m) \<longrightarrow>
         wait_loop E u t0 timeout s =
           wait_loop E u t0 timeout (s1\<lparr>world := time_sleep E 1.5 (world s1)\<rparr>)))"
proof (intro conjI impI)
  assume "plantuml_encode (zlib_compress E) (asc ''@startuml\<newline>@enduml\<newline>'') = Inr code"
    and "time_time E (world s) = (t, w)"
  then show "wait_for_server E port timeout s =
        wait_loop E (asc ''http://localhost:'' @ decimal port @ asc ''/png/'' @ code)
          t timeout (s\<lparr>world := w\<rparr>)"
    by (rule wait_for_server_loop)
next
  assume a: "time_time E (world s) = (t, w)" and b: "t - t0 < timeout"
    and c: "requests_send E (probe_request u) (s\<lparr>world := w\<rparr>) = (r, s1)"
  from attempted_send [OF c] show "attempted s1 = attempted s @ [probe_request u]" by simp
  show "\<forall>resp. r = Inr resp \<and> (status_code resp = 200 \<or> status_code resp = 400) \<longrightarrow>
         wait_loop E u t0 timeout s = Some (Inr (), s1)"
    using wait_loop_ready [OF a b, of u _ s1] c by auto
  show "\<forall>m. r = Inl (RequestException m) \<longrightarrow>
         wait_loop E u t0 timeout s =
           wait_loop E u t0 timeout (s1\<lparr>world := time_sleep E 1.5 (world s1)\<rparr>)"
    using wait_loop_retry [OF a b, of u _ s1] c by auto
qed

text \<open>The first probe is refused and the second is answered with status 400: the loop
  returns after two probes and one sleep.\<close>

theorem probe_status_ends_polling_witness:
  "wait_loop sim_env (asc ''http://localhost:18080/png/x'') 0 60 (fresh refused_then_400)
     = Some (Inr (),
         \<lparr>world = \<lparr>post_replies = [], get_replies = [], clock = 1.5\<rparr>,
          attempted = [probe_request (asc ''http://localhost:18080/png/x''),
                       probe_request (asc ''http://localhost:18080/png/x'')],
          written = []\<rparr>)"
proof -
  let ?u = "asc ''http://localhost:18080/png/x''"
  let ?r400 = "\<lparr>status_code = 400, content = error_page\<rparr>"
  let ?s1 = "\<lparr>world = \<lparr>post_replies = [], get_replies = [Inr ?r400], clock = 0\<rparr>,
      attempted = [probe_request ?u], written = []\<rparr>"
  let ?s2 = "\<lparr>world = \<lparr>post_replies = [], get_replies = [Inr ?r400], clock = 1.5\<rparr>,
      attempted = [probe_request ?u], written = []\<rparr>"
  let ?s3 = "\<lparr>world = \<lparr>post_replies = [], get_replies = [], clock = 1.5\<rparr>,
      attempted = [probe_request ?u, probe_request ?u], written = []\<rparr>"
  have t1: "time_time sim_env (world (fresh refused_then_400)) = (0, refused_then_400)"
    by (simp add: sim_env_def fresh_def refused_then_400_def)
  have p1: "requests_send sim_env (probe_request ?u) ((fresh refused_then_400)\<lparr>world := refused_then_400\<rparr>)
      = (Inl (RequestException (asc ''connection refused'')), ?s1)"
    by (simp add: sim_env_def sim_http_def fresh_def refused_then_400_def requests_send_def
        probe_request_def)
  have sl: "?s1\<lparr>world := time_sleep sim_env 1.5 (world ?s1)\<rparr> = ?s2"
    by (simp add: sim_env_def)
  have t2: "time_time sim_env (world ?s2) = (1.5, world ?s2)"
    by (simp add: sim_env_def)
  have p2: "requests_send sim_env (probe_request ?u) (?s2\<lparr>world := world ?s2\<rparr>) = (Inr ?r400, ?s3)"
    by (simp add: sim_env_def sim_http_def requests_send_def probe_request_def)
  from probe_status_ends_polling [of sim_env "[]" "fresh refused_then_400" 0 refused_then_400 0 60 0 ?u
      "Inl (RequestException (asc ''connection refused''))" ?s1, THEN conjunct2] t1 p1
  have "wait_loop sim_env ?u 0 60 (fresh refused_then_400) = wait_loop sim_env ?u 0 60 ?s2"
    unfolding sl by simp
  moreover from probe_status_ends_polling [of sim_env "[]" ?s2 "1.5" "world ?s2" 0 60 0 ?u "Inr ?r400" ?s3,
      THEN conjunct2] t2 p2
  have "wait_loop sim_env ?u 0 60 ?s2 = Some (Inr (), ?s3)"
    by simp
  ultimately show ?thesis by simp
qed

end
